theory Spec2Isabelle
  imports Complex_Main "HOL-Library.Multiset"
begin

section \<open>The entity store\<close>

text \<open>
  The schema of the academic-record database. Every table is a list of rows (a bag, in
  some fixed scan order). Identifiers (UUID) are opaque tokens, modelled as naturals;
  DATE is a day number and TIMESTAMPTZ an instant, both integers; DECIMAL is an exact
  rational. A column the schema leaves nullable has an option type, \<open>None\<close> being NULL.
  Columns that none of the modelled functions and policies reads (password hash, e-mail,
  role, picture and image references, creation stamps, cgpa, domain, category,
  difficulty, description, end date, marker) are left out of the rows.

  The functions of the later sections read the tables in full, as they do for the owner
  of the tables or a role that bypasses row-level security. The policy script of the
  sources creates no policy: it writes CREATE OR REPLACE POLICY, which the database
  rejects.
\<close>

type_synonym uuid = nat
type_synonym date = int
type_synonym timestamptz = int

datatype stream_type = CSE | DSE | EE | COMMON
datatype enrollment_status = Enrolled | Completed | Dropped
datatype attendance_status = Present | Absent
datatype semester_season = Fall | Spring | Summer

record user_row =
  u_user_id :: uuid
  u_full_name :: string

record student_row =
  s_student_id :: uuid
  s_roll_number :: string
  s_stream :: stream_type
  s_current_semester :: "int option"

record course_row =
  c_course_id :: uuid
  c_course_code :: string
  c_course_name :: string
  c_stream :: stream_type
  c_credits :: "int option"
  c_logical_semester :: "int option"

record semester_row =
  sem_semester_id :: uuid
  sem_academic_year :: string
  sem_season :: semester_season
  sem_start_date :: "date option"
  sem_registration_start_date :: timestamptz
  sem_registration_end_date :: timestamptz
  sem_is_active :: "bool option"
  sem_created_by :: "uuid option"

record course_offering_row =
  co_offering_id :: uuid
  co_course_id :: uuid
  co_teacher_id :: uuid
  co_semester_id :: "uuid option"

record enrollment_row =
  e_enrollment_id :: uuid
  e_student_id :: uuid
  e_offering_id :: uuid
  e_grade :: "string option"
  e_grade_point :: "rat option"
  e_status :: enrollment_status

record attendance_row =
  ar_attendance_id :: uuid
  ar_offering_id :: uuid
  ar_student_id :: uuid
  ar_date :: date
  ar_status :: attendance_status

record course_ta_row =
  ct_id :: uuid
  ct_offering_id :: uuid
  ct_ta_id :: uuid

record db =
  users :: "user_row list"
  students :: "student_row list"
  courses :: "course_row list"
  semesters :: "semester_row list"
  course_offerings :: "course_offering_row list"
  enrollments :: "enrollment_row list"
  attendance_records :: "attendance_row list"
  course_tas :: "course_ta_row list"

text \<open>Errors a statement can raise; a raised error aborts the statement, leaving the
  store as it was.\<close>

datatype sql_error = Division_by_zero | Unique_violation | Check_violation
  | Foreign_key_violation | String_data_right_truncation

subsection \<open>Constraints of the schema\<close>

text \<open>PRIMARY KEY of students, users, courses, semesters and course offerings.\<close>

definition pk_students :: "db \<Rightarrow> bool" where
  "pk_students d = distinct (map s_student_id (students d))"

definition pk_users :: "db \<Rightarrow> bool" where
  "pk_users d = distinct (map u_user_id (users d))"

definition pk_courses :: "db \<Rightarrow> bool" where
  "pk_courses d = distinct (map c_course_id (courses d))"

definition pk_semesters :: "db \<Rightarrow> bool" where
  "pk_semesters d = distinct (map sem_semester_id (semesters d))"

definition pk_course_offerings :: "db \<Rightarrow> bool" where
  "pk_course_offerings d = distinct (map co_offering_id (course_offerings d))"

text \<open>enrollments: UNIQUE(student_id, offering_id).\<close>

definition unique_enrollments :: "db \<Rightarrow> bool" where
  "unique_enrollments d = distinct (map (\<lambda>e. (e_student_id e, e_offering_id e)) (enrollments d))"

text \<open>attendance_records: UNIQUE(offering_id, student_id, date).\<close>

definition unique_attendance_records :: "db \<Rightarrow> bool" where
  "unique_attendance_records d =
     distinct (map (\<lambda>ar. (ar_offering_id ar, ar_student_id ar, ar_date ar)) (attendance_records d))"

text \<open>enrollments.student_id REFERENCES students(student_id);
  students.student_id REFERENCES users(user_id).\<close>

definition fk_enrollments_student :: "db \<Rightarrow> bool" where
  "fk_enrollments_student d =
     (\<forall>e \<in> set (enrollments d). e_student_id e \<in> set (map s_student_id (students d)))"

definition fk_students_user :: "db \<Rightarrow> bool" where
  "fk_students_user d =
     (\<forall>s \<in> set (students d). s_student_id s \<in> set (map u_user_id (users d)))"

text \<open>course_offerings.course_id REFERENCES courses(course_id);
  course_offerings.semester_id REFERENCES semesters(semester_id), nullable.\<close>

definition fk_offerings_course :: "db \<Rightarrow> bool" where
  "fk_offerings_course d =
     (\<forall>co \<in> set (course_offerings d). co_course_id co \<in> set (map c_course_id (courses d)))"

definition fk_offerings_semester :: "db \<Rightarrow> bool" where
  "fk_offerings_semester d =
     (\<forall>co \<in> set (course_offerings d). \<forall>m. co_semester_id co = Some m \<longrightarrow>
         m \<in> set (map sem_semester_id (semesters d)))"

text \<open>students: CHECK (current_semester > 0 AND current_semester <= 8); a CHECK passes
  on NULL.\<close>

definition students_current_semester_check :: "student_row \<Rightarrow> bool" where
  "students_current_semester_check s =
     (case s_current_semester s of None \<Rightarrow> True | Some n \<Rightarrow> 0 < n \<and> n \<le> 8)"

definition students_check :: "db \<Rightarrow> bool" where
  "students_check d = (\<forall>s \<in> set (students d). students_current_semester_check s)"


text \<open>enrollments: grade_point DECIMAL(4, 2), two decimals and an absolute value below
  100.\<close>

definition decimal_4_2 :: "rat \<Rightarrow> bool" where
  "decimal_4_2 g = (g * 100 = of_int \<lfloor>g * 100\<rfloor> \<and> \<bar>g\<bar> < 100)"

definition enrollments_grade_point_type :: "db \<Rightarrow> bool" where
  "enrollments_grade_point_type d =
     (\<forall>e \<in> set (enrollments d).
        case e_grade_point e of None \<Rightarrow> True | Some g \<Rightarrow> decimal_4_2 g)"

text \<open>courses: CHECK (credits > 0).\<close>

definition courses_credits_check :: "course_row \<Rightarrow> bool" where
  "courses_credits_check c = (case c_credits c of None \<Rightarrow> True | Some n \<Rightarrow> 0 < n)"

definition courses_check :: "db \<Rightarrow> bool" where
  "courses_check d = (\<forall>c \<in> set (courses d). courses_credits_check c)"

section \<open>Lifecycle operations\<close>

text \<open>
  increment_all_student_semesters:
  UPDATE students SET current_semester = current_semester + 1 WHERE current_semester < 8.
  A row whose current_semester is NULL does not satisfy the WHERE clause. Every row the
  statement rewrites is checked against the table's CHECK constraint again.
\<close>

definition semester_below_8 :: "student_row \<Rightarrow> bool" where
  "semester_below_8 s = (case s_current_semester s of None \<Rightarrow> False | Some n \<Rightarrow> n < 8)"

definition set_next_semester :: "student_row \<Rightarrow> student_row" where
  "set_next_semester s = s\<lparr>s_current_semester := map_option (\<lambda>n. n + 1) (s_current_semester s)\<rparr>"

definition increment_all_student_semesters :: "db \<Rightarrow> sql_error + db" where
  "increment_all_student_semesters d =
     (let updated = map set_next_semester (filter semester_below_8 (students d))
      in if list_all students_current_semester_check updated
         then Inr (d\<lparr>students :=
                map (\<lambda>s. if semester_below_8 s then set_next_semester s else s) (students d)\<rparr>)
         else Inl Check_violation)"

section \<open>Numeric division\<close>

text \<open>
  The quotient of two numerics as the database computes it. A numeric is stored in
  digits of base 10000; the weight of a value is the position of its first nonzero digit
  (0 for the units digit, 0 also for the value zero). The scale of the quotient is chosen
  from the weights and first digits of the operands so that the quotient has at least
  sixteen significant digits, and is never below the display scale of either operand;
  the quotient is then rounded at that scale, a half away from zero.
\<close>

fun base10000_weight :: "nat \<Rightarrow> nat" where
  "base10000_weight n = (if n < 10000 then 0 else Suc (base10000_weight (n div 10000)))"

declare base10000_weight.simps [simp del]

definition numeric_weight :: "rat \<Rightarrow> int" where
  "numeric_weight x =
     (let a = \<bar>x\<bar>
      in if a = 0 then 0
         else if 1 \<le> a then int (base10000_weight (nat \<lfloor>a\<rfloor>))
         else - int (Suc (base10000_weight (nat (\<lceil>1 / a\<rceil> - 1)))))"

definition numeric_first_digit :: "rat \<Rightarrow> int" where
  "numeric_first_digit x =
     (let a = \<bar>x\<bar>
      in if a = 0 then 0
         else if 1 \<le> a then \<lfloor>a\<rfloor> div 10000 ^ base10000_weight (nat \<lfloor>a\<rfloor>)
         else \<lfloor>a * 10000 ^ Suc (base10000_weight (nat (\<lceil>1 / a\<rceil> - 1)))\<rfloor>)"

definition select_div_scale :: "rat \<Rightarrow> nat \<Rightarrow> rat \<Rightarrow> nat \<Rightarrow> nat" where
  "select_div_scale var1 dscale1 var2 dscale2 =
     (let qweight = numeric_weight var1 - numeric_weight var2
                    - (if numeric_first_digit var1 \<le> numeric_first_digit var2 then 1 else 0);
          rscale = 16 - qweight * 4
      in nat (min 1000 (max 0 (max (int dscale2) (max (int dscale1) rscale)))))"

definition round_var :: "rat \<Rightarrow> nat \<Rightarrow> rat" where
  "round_var x rscale =
     (if 0 \<le> x then of_int \<lfloor>x * 10 ^ rscale + 1 / 2\<rfloor> / 10 ^ rscale
      else - (of_int \<lfloor>- x * 10 ^ rscale + 1 / 2\<rfloor> / 10 ^ rscale))"

text \<open>\<open>numeric_div_round var1 dscale1 var2 dscale2\<close>: the operands with their display
  scales; a zero divisor raises an error.\<close>

definition numeric_div_round :: "rat \<Rightarrow> nat \<Rightarrow> rat \<Rightarrow> nat \<Rightarrow> sql_error + rat" where
  "numeric_div_round var1 dscale1 var2 dscale2 =
     (if var2 = 0 then Inl Division_by_zero
      else Inr (round_var (var1 / var2) (select_div_scale var1 dscale1 var2 dscale2)))"

section \<open>Attendance metrics\<close>

text \<open>get_total_class_days:
  SELECT COUNT(DISTINCT date) FROM attendance_records WHERE offering_id = o_id.\<close>

definition get_total_class_days :: "db \<Rightarrow> uuid \<Rightarrow> int" where
  "get_total_class_days d o_id =
     int (length (remdups (map ar_date
            (filter (\<lambda>ar. ar_offering_id ar = o_id) (attendance_records d)))))"

text \<open>
  Division of numerics raises an error on a zero divisor. In the attendance percentage
  the quotient is taken exactly: the database rounds it at sixteen decimal places or
  more, and the truncation to two decimals that follows gives the same result for the
  rounded and for the exact quotient as long as the offering has fewer than 10^14 class
  days (\<open>attendance_quotient_rounding_unseen\<close>), many more than a DATE column has dates.
  \<open>TRUNC x n\<close> cuts \<open>x\<close> to \<open>n\<close> decimal places, towards zero.
\<close>

definition numeric_div :: "rat \<Rightarrow> rat \<Rightarrow> sql_error + rat" where
  "numeric_div a b = (if b = 0 then Inl Division_by_zero else Inr (a / b))"

definition TRUNC :: "rat \<Rightarrow> nat \<Rightarrow> rat" where
  "TRUNC x n = (if 0 \<le> x then of_int \<lfloor>x * 10 ^ n\<rfloor> / 10 ^ n
                else - (of_int \<lfloor>- x * 10 ^ n\<rfloor> / 10 ^ n))"

text \<open>
  get_course_attendance_stats. The FROM clause joins enrollments with students and users
  and LEFT JOINs the attendance records of the same offering and student (an enrollment
  without any record keeps one row whose attendance side is NULL); WHERE keeps the
  enrollments of the offering with status enrolled; GROUP BY student_id, full_name,
  roll_number (and the constant total_class_days) forms the groups, and each group yields
  one row: COUNT(ar.status) FILTER (WHERE ar.status = 'present') and the CASE expression
  for the percentage.
\<close>

record stats_row =
  st_student_id :: uuid
  st_full_name :: string
  st_roll_number :: string
  st_total_classes :: int
  st_attended_classes :: int
  st_attendance_percentage :: rat

type_synonym stats_join_row = "enrollment_row \<times> student_row \<times> user_row \<times> attendance_row option"

definition left_join_attendance :: "db \<Rightarrow> enrollment_row \<Rightarrow> attendance_row option list" where
  "left_join_attendance d e =
     (let matches = filter (\<lambda>ar. e_offering_id e = ar_offering_id ar \<and> e_student_id e = ar_student_id ar)
                      (attendance_records d)
      in if matches = [] then [None] else map Some matches)"

definition stats_from :: "db \<Rightarrow> uuid \<Rightarrow> stats_join_row list" where
  "stats_from d o_id =
     [(e, s, u, ar).
        e \<leftarrow> enrollments d,
        s \<leftarrow> students d, e_student_id e = s_student_id s,
        u \<leftarrow> users d, s_student_id s = u_user_id u,
        ar \<leftarrow> left_join_attendance d e,
        e_offering_id e = o_id \<and> e_status e = Enrolled]"

definition stats_group_key :: "stats_join_row \<Rightarrow> uuid \<times> string \<times> string" where
  "stats_group_key = (\<lambda>(e, s, u, ar). (s_student_id s, u_full_name u, s_roll_number s))"

definition is_present :: "stats_join_row \<Rightarrow> bool" where
  "is_present = (\<lambda>(e, s, u, ar). case ar of None \<Rightarrow> False | Some a \<Rightarrow> ar_status a = Present)"

definition count_present :: "stats_join_row list \<Rightarrow> int" where
  "count_present g = int (length (filter is_present g))"

text \<open>CASE WHEN COALESCE(total_class_days, 0) > 0
  THEN TRUNC((attended * 100.0) / total_class_days, 2) ELSE 0.0 END.
  The variable total_class_days holds a COUNT, which is never NULL, so the COALESCE
  leaves it as it is.\<close>

definition attendance_percentage :: "int \<Rightarrow> int \<Rightarrow> sql_error + rat" where
  "attendance_percentage total_class_days attended =
     (if total_class_days > 0
      then (case numeric_div (of_int attended * 100) (of_int total_class_days) of
              Inl err \<Rightarrow> Inl err
            | Inr q \<Rightarrow> Inr (TRUNC q 2))
      else Inr 0)"

definition stats_select :: "int \<Rightarrow> uuid \<times> string \<times> string \<Rightarrow> stats_join_row list \<Rightarrow> sql_error + stats_row" where
  "stats_select total_class_days k g =
     (case attendance_percentage total_class_days (count_present g) of
        Inl err \<Rightarrow> Inl err
      | Inr p \<Rightarrow> Inr \<lparr>st_student_id = fst k, st_full_name = fst (snd k),
                    st_roll_number = snd (snd k), st_total_classes = total_class_days,
                    st_attended_classes = count_present g, st_attendance_percentage = p\<rparr>)"

text \<open>The rows of a query, or the first error raised while computing one of them.\<close>

fun collect_rows :: "('e + 'a) list \<Rightarrow> 'e + 'a list" where
  "collect_rows [] = Inr []"
| "collect_rows (x # xs) =
     (case x of Inl err \<Rightarrow> Inl err
      | Inr r \<Rightarrow> (case collect_rows xs of Inl err \<Rightarrow> Inl err | Inr rs \<Rightarrow> Inr (r # rs)))"

definition get_course_attendance_stats :: "db \<Rightarrow> uuid \<Rightarrow> sql_error + stats_row list" where
  "get_course_attendance_stats d o_id =
     (let total_class_days = get_total_class_days d o_id;
          joined = stats_from d o_id
      in collect_rows
           (map (\<lambda>k. stats_select total_class_days k (filter (\<lambda>r. stats_group_key r = k) joined))
                (remdups (map stats_group_key joined))))"

text \<open>The specification's present_count(student, offering): the number of attendance
  records of the student in the offering with status present.\<close>

definition spec_present_count :: "db \<Rightarrow> uuid \<Rightarrow> uuid \<Rightarrow> int" where
  "spec_present_count d student offering =
     int (length (filter (\<lambda>ar. ar_offering_id ar = offering \<and> ar_student_id ar = student
                               \<and> ar_status ar = Present) (attendance_records d)))"

text \<open>The row a group yields, written without the error channel (the CASE guard keeps
  the division from ever failing, see \<open>stats_select_value\<close>).\<close>

definition stats_row_of :: "int \<Rightarrow> uuid \<times> string \<times> string \<Rightarrow> stats_join_row list \<Rightarrow> stats_row" where
  "stats_row_of t k g =
     \<lparr>st_student_id = fst k, st_full_name = fst (snd k), st_roll_number = snd (snd k),
      st_total_classes = t, st_attended_classes = count_present g,
      st_attendance_percentage =
        (if 0 < t then TRUNC (of_int (count_present g) * 100 / of_int t) 2 else 0)\<rparr>"

section \<open>Offerings open to a student\<close>

text \<open>
  get_available_offerings_for_student. NOW() is the parameter \<open>now\<close>. SELECT ... INTO
  takes the first row the query yields and NULL when there is none; the comparison
  \<open>a = b\<close> of SQL is true only when both sides are present and equal (\<open>sql_eq\<close>).
  The JSON array returned is modelled as the list of its elements, each an offering row
  with its course.
\<close>

definition sql_eq :: "'a option \<Rightarrow> 'a option \<Rightarrow> bool" where
  "sql_eq a b = (case a of None \<Rightarrow> False | Some x \<Rightarrow> (case b of None \<Rightarrow> False | Some y \<Rightarrow> x = y))"

text \<open>WHERE is_active = true AND registration_start_date < NOW()
  AND registration_end_date > NOW()\<close>

definition registration_open :: "timestamptz \<Rightarrow> semester_row \<Rightarrow> bool" where
  "registration_open now m =
     (sem_is_active m = Some True \<and> sem_registration_start_date m < now
      \<and> sem_registration_end_date m > now)"

definition get_available_offerings_for_student ::
    "db \<Rightarrow> timestamptz \<Rightarrow> uuid \<Rightarrow> (course_offering_row \<times> course_row) list" where
  "get_available_offerings_for_student d now s_id =
     (let st = find (\<lambda>s. s_student_id s = s_id) (students d);
          student_semester = (case st of None \<Rightarrow> None | Some s \<Rightarrow> s_current_semester s);
          student_stream = map_option s_stream st;
          active_sem_id = map_option sem_semester_id (find (registration_open now) (semesters d))
      in if active_sem_id = None then []
         else [(co, c).
                 co \<leftarrow> course_offerings d,
                 c \<leftarrow> courses d, co_course_id co = c_course_id c,
                 sql_eq (co_semester_id co) active_sem_id
                 \<and> (sql_eq (Some (c_stream c)) student_stream \<or> c_stream c = COMMON)
                 \<and> (sql_eq (c_logical_semester c) student_semester \<or> c_logical_semester c = None)
                 \<and> \<not> (\<exists>e \<in> set (enrollments d).
                         e_student_id e = s_id \<and> e_offering_id e = co_offering_id co)])"

section \<open>Offerings of a teacher\<close>

text \<open>
  get_teacher_offerings_with_status. The FROM clause joins course_offerings with courses
  and (by an inner join on semester_id) with semesters; WHERE keeps the offerings of the
  teacher; ORDER BY s.start_date DESC sorts the joined rows, NULL start dates first (the
  default of a descending order); each row carries EXISTS (an enrollment of the offering
  with status completed). The order of rows with equal start dates is left open by SQL;
  the model keeps the scan order.
\<close>

record teacher_offering_row =
  to_offering_id :: uuid
  to_course_id :: uuid
  to_teacher_id :: uuid
  to_semester_id :: "uuid option"
  to_logical_semester :: "int option"
  to_academic_year :: string
  to_season :: semester_season
  to_course_code :: string
  to_course_name :: string
  to_stream :: stream_type
  to_is_completed :: bool

type_synonym teacher_join_row = "course_offering_row \<times> course_row \<times> semester_row"

text \<open>\<open>date_desc a b\<close>: a row with start date \<open>a\<close> may stand before one with \<open>b\<close>.\<close>

fun date_desc :: "date option \<Rightarrow> date option \<Rightarrow> bool" where
  "date_desc None _ = True"
| "date_desc (Some a) None = False"
| "date_desc (Some a) (Some b) = (b \<le> a)"

fun insert_desc :: "('a \<Rightarrow> date option) \<Rightarrow> 'a \<Rightarrow> 'a list \<Rightarrow> 'a list" where
  "insert_desc key x [] = [x]"
| "insert_desc key x (y # ys) =
     (if date_desc (key x) (key y) then x # y # ys else y # insert_desc key x ys)"

definition order_by_desc :: "('a \<Rightarrow> date option) \<Rightarrow> 'a list \<Rightarrow> 'a list" where
  "order_by_desc key xs = foldr (insert_desc key) xs []"

definition teacher_from :: "db \<Rightarrow> uuid \<Rightarrow> teacher_join_row list" where
  "teacher_from d t_id =
     [(co, c, s).
        co \<leftarrow> course_offerings d,
        c \<leftarrow> courses d, co_course_id co = c_course_id c,
        s \<leftarrow> semesters d, sql_eq (co_semester_id co) (Some (sem_semester_id s)),
        co_teacher_id co = t_id]"

definition teacher_select :: "db \<Rightarrow> teacher_join_row \<Rightarrow> teacher_offering_row" where
  "teacher_select d = (\<lambda>(co, c, s).
     \<lparr>to_offering_id = co_offering_id co, to_course_id = co_course_id co,
      to_teacher_id = co_teacher_id co, to_semester_id = co_semester_id co,
      to_logical_semester = c_logical_semester c, to_academic_year = sem_academic_year s,
      to_season = sem_season s, to_course_code = c_course_code c,
      to_course_name = c_course_name c, to_stream = c_stream c,
      to_is_completed = (\<exists>e \<in> set (enrollments d).
                           e_offering_id e = co_offering_id co \<and> e_status e = Completed)\<rparr>)"

definition get_teacher_offerings_with_status :: "db \<Rightarrow> uuid \<Rightarrow> teacher_offering_row list" where
  "get_teacher_offerings_with_status d t_id =
     map (teacher_select d)
         (order_by_desc (\<lambda>(co, c, s). sem_start_date s) (teacher_from d t_id))"

text \<open>The start date of the semester a returned row refers to, looked up in the store.\<close>

definition spec_start_date :: "db \<Rightarrow> teacher_offering_row \<Rightarrow> date option" where
  "spec_start_date d r =
     (case find (\<lambda>s. Some (sem_semester_id s) = to_semester_id r) (semesters d) of
        None \<Rightarrow> None
      | Some s \<Rightarrow> sem_start_date s)"

section \<open>Grade point averages\<close>

text \<open>
  SUM ignores NULL inputs and is NULL when it has no input left; arithmetic with a NULL
  operand is NULL; \<open>a <= b\<close> is true only when both sides are present. The quotient of
  the two sums is the rounded quotient of numerics; a zero divisor raises an error.
\<close>

definition non_null :: "'a option list \<Rightarrow> 'a list" where
  "non_null xs = [v. Some v \<leftarrow> xs]"

definition sql_sum :: "rat option list \<Rightarrow> rat option" where
  "sql_sum xs = (let vs = non_null xs in if vs = [] then None else Some (sum_list vs))"

definition sql_times :: "int option \<Rightarrow> rat option \<Rightarrow> rat option" where
  "sql_times a b =
     (case a of None \<Rightarrow> None
      | Some x \<Rightarrow> (case b of None \<Rightarrow> None | Some y \<Rightarrow> Some (of_int x * y)))"

definition sql_divide :: "rat option \<Rightarrow> nat \<Rightarrow> rat option \<Rightarrow> nat \<Rightarrow> sql_error + rat option" where
  "sql_divide a dscale_a b dscale_b =
     (case a of None \<Rightarrow> Inr None
      | Some x \<Rightarrow> (case b of None \<Rightarrow> Inr None
                   | Some y \<Rightarrow> (case numeric_div_round x dscale_a y dscale_b of
                                  Inl err \<Rightarrow> Inl err | Inr q \<Rightarrow> Inr (Some q))))"

definition sql_le :: "date option \<Rightarrow> date option \<Rightarrow> bool" where
  "sql_le a b = (case a of None \<Rightarrow> False | Some x \<Rightarrow> (case b of None \<Rightarrow> False | Some y \<Rightarrow> x \<le> y))"

text \<open>SELECT COALESCE(SUM(c.credits * e.grade_point) / SUM(c.credits), 0.0), over the
  joined rows that pass the WHERE clause. The first sum is a numeric with the display
  scale 2 of grade_point DECIMAL(4, 2); the second is a sum of integers, of display
  scale 0.\<close>

definition gpa_select :: "(enrollment_row \<times> course_row) list \<Rightarrow> sql_error + rat" where
  "gpa_select rows =
     (case sql_divide (sql_sum (map (\<lambda>(e, c). sql_times (c_credits c) (e_grade_point e)) rows)) 2
                      (sql_sum (map (\<lambda>(e, c). map_option of_int (c_credits c)) rows)) 0 of
        Inl err \<Rightarrow> Inl err
      | Inr q \<Rightarrow> Inr (case q of None \<Rightarrow> 0 | Some v \<Rightarrow> v))"

text \<open>get_student_sgpa: enrollments joined with their offering and its course; WHERE
  the student, status completed, grade_point IS NOT NULL and the offering's semester.\<close>

definition sgpa_from :: "db \<Rightarrow> uuid \<Rightarrow> uuid \<Rightarrow> (enrollment_row \<times> course_row) list" where
  "sgpa_from d s_id target_sem_id =
     [(e, c).
        e \<leftarrow> enrollments d,
        co \<leftarrow> course_offerings d, e_offering_id e = co_offering_id co,
        c \<leftarrow> courses d, co_course_id co = c_course_id c,
        e_student_id e = s_id \<and> e_status e = Completed \<and> e_grade_point e \<noteq> None
        \<and> sql_eq (co_semester_id co) (Some target_sem_id)]"

definition get_student_sgpa :: "db \<Rightarrow> uuid \<Rightarrow> uuid \<Rightarrow> sql_error + rat" where
  "get_student_sgpa d s_id target_sem_id = gpa_select (sgpa_from d s_id target_sem_id)"

text \<open>get_student_cgpa: the same with an inner join on the offering's semester, and
  WHERE (max_sem_date IS NULL OR s.start_date <= max_sem_date); max_sem_date defaults to
  NULL.\<close>

definition cgpa_from :: "db \<Rightarrow> uuid \<Rightarrow> date option \<Rightarrow> (enrollment_row \<times> course_row) list" where
  "cgpa_from d s_id max_sem_date =
     [(e, c).
        e \<leftarrow> enrollments d,
        co \<leftarrow> course_offerings d, e_offering_id e = co_offering_id co,
        s \<leftarrow> semesters d, sql_eq (co_semester_id co) (Some (sem_semester_id s)),
        c \<leftarrow> courses d, co_course_id co = c_course_id c,
        e_student_id e = s_id \<and> e_status e = Completed \<and> e_grade_point e \<noteq> None
        \<and> (max_sem_date = None \<or> sql_le (sem_start_date s) max_sem_date)]"

definition get_student_cgpa :: "db \<Rightarrow> uuid \<Rightarrow> date option \<Rightarrow> sql_error + rat" where
  "get_student_cgpa d s_id max_sem_date = gpa_select (cgpa_from d s_id max_sem_date)"

subsection \<open>The averages in the words of the specification\<close>

text \<open>The offering of an enrollment, the course and the semester of an offering, looked
  up by their keys.\<close>

definition spec_offering_of :: "db \<Rightarrow> enrollment_row \<Rightarrow> course_offering_row option" where
  "spec_offering_of d e = find (\<lambda>co. e_offering_id e = co_offering_id co) (course_offerings d)"

definition spec_course_of :: "db \<Rightarrow> course_offering_row \<Rightarrow> course_row option" where
  "spec_course_of d co = find (\<lambda>c. co_course_id co = c_course_id c) (courses d)"

definition spec_semester_of :: "db \<Rightarrow> course_offering_row \<Rightarrow> semester_row option" where
  "spec_semester_of d co =
     find (\<lambda>s. sql_eq (co_semester_id co) (Some (sem_semester_id s))) (semesters d)"

text \<open>The credit-weighted average of (credits, grade point) pairs, 0 when there is none.\<close>

definition credit_weighted_average :: "(int \<times> rat) list \<Rightarrow> rat" where
  "credit_weighted_average ps =
     (if ps = [] then 0
      else sum_list (map (\<lambda>(cr, g). of_int cr * g) ps) / sum_list (map (\<lambda>(cr, g). of_int cr) ps))"

text \<open>The same average as the database returns it: the quotient of the two sums,
  rounded at the scale the database selects for it.\<close>

definition numeric_credit_weighted_average :: "(int \<times> rat) list \<Rightarrow> rat" where
  "numeric_credit_weighted_average ps =
     (if ps = [] then 0
      else round_var
             (sum_list (map (\<lambda>(cr, g). of_int cr * g) ps) / sum_list (map (\<lambda>(cr, g). of_int cr) ps))
             (select_div_scale (sum_list (map (\<lambda>(cr, g). of_int cr * g) ps)) 2
                               (sum_list (map (\<lambda>(cr, g). of_int cr) ps)) 0))"

text \<open>The (credits, grade point) pairs of the student's completed enrollments that carry
  a grade point, whose offering is in scope and whose course has credits.\<close>

definition spec_graded_credits ::
    "db \<Rightarrow> uuid \<Rightarrow> (course_offering_row \<Rightarrow> bool) \<Rightarrow> (int \<times> rat) list" where
  "spec_graded_credits d s_id in_scope =
     [(cr, g).
        e \<leftarrow> enrollments d, e_student_id e = s_id \<and> e_status e = Completed,
        Some g \<leftarrow> [e_grade_point e],
        Some co \<leftarrow> [spec_offering_of d e], in_scope co,
        Some c \<leftarrow> [spec_course_of d co],
        Some cr \<leftarrow> [c_credits c]]"

text \<open>An offering is in the scope of the cumulative average when it has a semester and,
  if a cutoff is given, that semester starts on or before it.\<close>

definition spec_cgpa_scope :: "db \<Rightarrow> date option \<Rightarrow> course_offering_row \<Rightarrow> bool" where
  "spec_cgpa_scope d max_sem_date co =
     (case spec_semester_of d co of
        None \<Rightarrow> False
      | Some s \<Rightarrow> max_sem_date = None \<or> sql_le (sem_start_date s) max_sem_date)"

text \<open>The averages as the claim words them: over all completed enrollments, whether or
  not they carry a grade point (a missing grade point adds nothing to the numerator,
  the credits count in the denominator), and, without cutoff, whether or not the
  offering has a semester.\<close>

definition claimed_completed_credits ::
    "db \<Rightarrow> uuid \<Rightarrow> (course_offering_row \<Rightarrow> bool) \<Rightarrow> (int \<times> rat option) list" where
  "claimed_completed_credits d s_id in_scope =
     [(cr, e_grade_point e).
        e \<leftarrow> enrollments d, e_student_id e = s_id \<and> e_status e = Completed,
        Some co \<leftarrow> [spec_offering_of d e], in_scope co,
        Some c \<leftarrow> [spec_course_of d co],
        Some cr \<leftarrow> [c_credits c]]"

definition claimed_average :: "(int \<times> rat option) list \<Rightarrow> rat" where
  "claimed_average ps =
     (if ps = [] then 0
      else sum_list (map (\<lambda>(cr, g). of_int cr * (case g of None \<Rightarrow> 0 | Some v \<Rightarrow> v)) ps)
           / sum_list (map (\<lambda>(cr, g). of_int cr) ps))"

definition claimed_sgpa :: "db \<Rightarrow> uuid \<Rightarrow> uuid \<Rightarrow> rat" where
  "claimed_sgpa d s_id sem =
     claimed_average (claimed_completed_credits d s_id (\<lambda>co. co_semester_id co = Some sem))"

definition claimed_cgpa :: "db \<Rightarrow> uuid \<Rightarrow> date option \<Rightarrow> rat" where
  "claimed_cgpa d s_id max_sem_date =
     claimed_average (claimed_completed_credits d s_id
       (\<lambda>co. case max_sem_date of
                None \<Rightarrow> True
              | Some dt \<Rightarrow> (case spec_semester_of d co of
                              None \<Rightarrow> False
                            | Some s \<Rightarrow> sql_le (sem_start_date s) (Some dt))))"

text \<open>The (credits, grade point) pairs of joined rows in which both are present.\<close>

definition gpa_pairs :: "(enrollment_row \<times> course_row) list \<Rightarrow> (int \<times> rat) list" where
  "gpa_pairs rows =
     concat (map (\<lambda>(e, c). case c_credits c of
                              None \<Rightarrow> []
                            | Some cr \<Rightarrow> (case e_grade_point e of None \<Rightarrow> [] | Some g \<Rightarrow> [(cr, g)]))
                 rows)"

section \<open>Authorization of reads\<close>







section \<open>Registration periods\<close>




section \<open>Example stores\<close>

text \<open>One offering (7) with ten class days. Student 1 was present on eight of them,
  student 2 has three records with one present, and student 3 has dropped the course.\<close>

definition attendance_example :: db where
  "attendance_example =
     \<lparr>users = [\<lparr>u_user_id = 1, u_full_name = ''Asha''\<rparr>,
               \<lparr>u_user_id = 2, u_full_name = ''Ravi''\<rparr>,
               \<lparr>u_user_id = 3, u_full_name = ''Mira''\<rparr>],
      students =
        [\<lparr>s_student_id = 1, s_roll_number = ''R1'', s_stream = CSE, s_current_semester = Some 3\<rparr>,
         \<lparr>s_student_id = 2, s_roll_number = ''R2'', s_stream = CSE, s_current_semester = Some 3\<rparr>,
         \<lparr>s_student_id = 3, s_roll_number = ''R3'', s_stream = CSE, s_current_semester = Some 3\<rparr>],
      courses = [], semesters = [], course_offerings = [],
      enrollments =
        [\<lparr>e_enrollment_id = 1, e_student_id = 1, e_offering_id = 7, e_grade = None,
          e_grade_point = None, e_status = Enrolled\<rparr>,
         \<lparr>e_enrollment_id = 2, e_student_id = 2, e_offering_id = 7, e_grade = None,
          e_grade_point = None, e_status = Enrolled\<rparr>,
         \<lparr>e_enrollment_id = 3, e_student_id = 3, e_offering_id = 7, e_grade = None,
          e_grade_point = None, e_status = Dropped\<rparr>],
      attendance_records =
        [\<lparr>ar_attendance_id = 1, ar_offering_id = 7, ar_student_id = 1, ar_date = 1, ar_status = Present\<rparr>,
         \<lparr>ar_attendance_id = 2, ar_offering_id = 7, ar_student_id = 1, ar_date = 2, ar_status = Present\<rparr>,
         \<lparr>ar_attendance_id = 3, ar_offering_id = 7, ar_student_id = 1, ar_date = 3, ar_status = Present\<rparr>,
         \<lparr>ar_attendance_id = 4, ar_offering_id = 7, ar_student_id = 1, ar_date = 4, ar_status = Present\<rparr>,
         \<lparr>ar_attendance_id = 5, ar_offering_id = 7, ar_student_id = 1, ar_date = 5, ar_status = Present\<rparr>,
         \<lparr>ar_attendance_id = 6, ar_offering_id = 7, ar_student_id = 1, ar_date = 6, ar_status = Present\<rparr>,
         \<lparr>ar_attendance_id = 7, ar_offering_id = 7, ar_student_id = 1, ar_date = 7, ar_status = Present\<rparr>,
         \<lparr>ar_attendance_id = 8, ar_offering_id = 7, ar_student_id = 1, ar_date = 8, ar_status = Present\<rparr>,
         \<lparr>ar_attendance_id = 9, ar_offering_id = 7, ar_student_id = 1, ar_date = 9, ar_status = Absent\<rparr>,
         \<lparr>ar_attendance_id = 10, ar_offering_id = 7, ar_student_id = 1, ar_date = 10, ar_status = Absent\<rparr>,
         \<lparr>ar_attendance_id = 11, ar_offering_id = 7, ar_student_id = 2, ar_date = 1, ar_status = Present\<rparr>,
         \<lparr>ar_attendance_id = 12, ar_offering_id = 7, ar_student_id = 2, ar_date = 2, ar_status = Absent\<rparr>,
         \<lparr>ar_attendance_id = 13, ar_offering_id = 7, ar_student_id = 2, ar_date = 3, ar_status = Absent\<rparr>],
      course_tas = []\<rparr>"

text \<open>Three students: in semester 3, in semester 8, and without a semester.\<close>

definition advance_example :: db where
  "advance_example =
     \<lparr>users = [],
      students =
        [\<lparr>s_student_id = 1, s_roll_number = ''R1'', s_stream = CSE, s_current_semester = Some 3\<rparr>,
         \<lparr>s_student_id = 2, s_roll_number = ''R2'', s_stream = EE, s_current_semester = Some 8\<rparr>,
         \<lparr>s_student_id = 3, s_roll_number = ''R3'', s_stream = DSE, s_current_semester = None\<rparr>],
      courses = [], semesters = [], course_offerings = [], enrollments = [],
      attendance_records = [], course_tas = []\<rparr>"

text \<open>A CSE student in semester 3 while registration for semester 50 is open (between
  instants 10 and 200). Offerings 1 and 2 match the student; 3 is of another stream, 4 of
  another logical semester, 5 is one the student dropped, and 6 belongs to a closed
  semester.\<close>

definition available_example :: db where
  "available_example =
     \<lparr>users = [\<lparr>u_user_id = 1, u_full_name = ''Asha''\<rparr>],
      students =
        [\<lparr>s_student_id = 1, s_roll_number = ''R1'', s_stream = CSE, s_current_semester = Some 3\<rparr>],
      courses =
        [\<lparr>c_course_id = 101, c_course_code = ''CS301'', c_course_name = ''Algorithms'',
          c_stream = CSE, c_credits = Some 4, c_logical_semester = Some 3\<rparr>,
         \<lparr>c_course_id = 102, c_course_code = ''HS001'', c_course_name = ''Ethics'',
          c_stream = COMMON, c_credits = Some 2, c_logical_semester = None\<rparr>,
         \<lparr>c_course_id = 103, c_course_code = ''EE301'', c_course_name = ''Circuits'',
          c_stream = EE, c_credits = Some 4, c_logical_semester = Some 3\<rparr>,
         \<lparr>c_course_id = 104, c_course_code = ''CS501'', c_course_name = ''Compilers'',
          c_stream = CSE, c_credits = Some 4, c_logical_semester = Some 5\<rparr>,
         \<lparr>c_course_id = 105, c_course_code = ''CS302'', c_course_name = ''Databases'',
          c_stream = CSE, c_credits = Some 3, c_logical_semester = Some 3\<rparr>],
      semesters =
        [\<lparr>sem_semester_id = 51, sem_academic_year = ''2024'', sem_season = Spring,
          sem_start_date = Some 20, sem_registration_start_date = 1,
          sem_registration_end_date = 5, sem_is_active = Some False, sem_created_by = None\<rparr>,
         \<lparr>sem_semester_id = 50, sem_academic_year = ''2025'', sem_season = Fall,
          sem_start_date = Some 300, sem_registration_start_date = 10,
          sem_registration_end_date = 200, sem_is_active = Some True, sem_created_by = None\<rparr>],
      course_offerings =
        [\<lparr>co_offering_id = 1, co_course_id = 101, co_teacher_id = 9, co_semester_id = Some 50\<rparr>,
         \<lparr>co_offering_id = 2, co_course_id = 102, co_teacher_id = 9, co_semester_id = Some 50\<rparr>,
         \<lparr>co_offering_id = 3, co_course_id = 103, co_teacher_id = 9, co_semester_id = Some 50\<rparr>,
         \<lparr>co_offering_id = 4, co_course_id = 104, co_teacher_id = 9, co_semester_id = Some 50\<rparr>,
         \<lparr>co_offering_id = 5, co_course_id = 105, co_teacher_id = 9, co_semester_id = Some 50\<rparr>,
         \<lparr>co_offering_id = 6, co_course_id = 101, co_teacher_id = 9, co_semester_id = Some 51\<rparr>],
      enrollments =
        [\<lparr>e_enrollment_id = 1, e_student_id = 1, e_offering_id = 5, e_grade = None,
          e_grade_point = None, e_status = Dropped\<rparr>],
      attendance_records = [], course_tas = []\<rparr>"

text \<open>Teacher 5 teaches offerings 1 to 4: offering 1 in a semester starting on day 100,
  offering 2 in one starting on day 200, offering 3 without a semester, offering 4 in a
  semester without start date. Offering 6 is taught by teacher 8. Offering 1 has a
  completed enrollment, offering 2 only a dropped one.\<close>

definition teacher_example :: db where
  "teacher_example =
     \<lparr>users = [], students = [],
      courses =
        [\<lparr>c_course_id = 101, c_course_code = ''CS301'', c_course_name = ''Algorithms'',
          c_stream = CSE, c_credits = Some 4, c_logical_semester = Some 3\<rparr>,
         \<lparr>c_course_id = 102, c_course_code = ''HS001'', c_course_name = ''Ethics'',
          c_stream = COMMON, c_credits = Some 2, c_logical_semester = None\<rparr>],
      semesters =
        [\<lparr>sem_semester_id = 50, sem_academic_year = ''2024'', sem_season = Fall,
          sem_start_date = Some 100, sem_registration_start_date = 1,
          sem_registration_end_date = 5, sem_is_active = Some False, sem_created_by = None\<rparr>,
         \<lparr>sem_semester_id = 51, sem_academic_year = ''2025'', sem_season = Spring,
          sem_start_date = Some 200, sem_registration_start_date = 10,
          sem_registration_end_date = 20, sem_is_active = Some False, sem_created_by = None\<rparr>,
         \<lparr>sem_semester_id = 52, sem_academic_year = ''2025'', sem_season = Fall,
          sem_start_date = None, sem_registration_start_date = 30,
          sem_registration_end_date = 40, sem_is_active = Some True, sem_created_by = None\<rparr>],
      course_offerings =
        [\<lparr>co_offering_id = 1, co_course_id = 101, co_teacher_id = 5, co_semester_id = Some 50\<rparr>,
         \<lparr>co_offering_id = 2, co_course_id = 101, co_teacher_id = 5, co_semester_id = Some 51\<rparr>,
         \<lparr>co_offering_id = 3, co_course_id = 102, co_teacher_id = 5, co_semester_id = None\<rparr>,
         \<lparr>co_offering_id = 4, co_course_id = 101, co_teacher_id = 5, co_semester_id = Some 52\<rparr>,
         \<lparr>co_offering_id = 6, co_course_id = 102, co_teacher_id = 8, co_semester_id = Some 51\<rparr>],
      enrollments =
        [\<lparr>e_enrollment_id = 1, e_student_id = 1, e_offering_id = 1, e_grade = Some ''A'',
          e_grade_point = Some 9, e_status = Completed\<rparr>,
         \<lparr>e_enrollment_id = 2, e_student_id = 1, e_offering_id = 2, e_grade = None,
          e_grade_point = None, e_status = Dropped\<rparr>],
      attendance_records = [], course_tas = []\<rparr>"

text \<open>Courses 101 and 102 have four credits, course 103 two. Offerings 1, 2 and 4
  belong to semester 50, offering 3 has no semester. Student 1 completed offering 1 with
  grade point 8, offering 2 without grade point, and offering 3 with grade point 6;
  student 2 completed offering 1 with grade point 8 and offering 3 with grade point 6;
  student 3 completed offering 1 with grade point 8 and offering 4 (two credits) with
  grade point 9.\<close>

definition gpa_example :: db where
  "gpa_example =
     \<lparr>users = [], students = [],
      courses =
        [\<lparr>c_course_id = 101, c_course_code = ''CS301'', c_course_name = ''Algorithms'',
          c_stream = CSE, c_credits = Some 4, c_logical_semester = Some 3\<rparr>,
         \<lparr>c_course_id = 102, c_course_code = ''CS302'', c_course_name = ''Databases'',
          c_stream = CSE, c_credits = Some 4, c_logical_semester = Some 3\<rparr>,
         \<lparr>c_course_id = 103, c_course_code = ''HS001'', c_course_name = ''Ethics'',
          c_stream = COMMON, c_credits = Some 2, c_logical_semester = None\<rparr>],
      semesters =
        [\<lparr>sem_semester_id = 50, sem_academic_year = ''2024'', sem_season = Fall,
          sem_start_date = Some 100, sem_registration_start_date = 1,
          sem_registration_end_date = 5, sem_is_active = Some False, sem_created_by = None\<rparr>],
      course_offerings =
        [\<lparr>co_offering_id = 1, co_course_id = 101, co_teacher_id = 5, co_semester_id = Some 50\<rparr>,
         \<lparr>co_offering_id = 2, co_course_id = 102, co_teacher_id = 5, co_semester_id = Some 50\<rparr>,
         \<lparr>co_offering_id = 3, co_course_id = 103, co_teacher_id = 5, co_semester_id = None\<rparr>,
         \<lparr>co_offering_id = 4, co_course_id = 103, co_teacher_id = 5, co_semester_id = Some 50\<rparr>],
      enrollments =
        [\<lparr>e_enrollment_id = 1, e_student_id = 1, e_offering_id = 1, e_grade = Some ''A'',
          e_grade_point = Some 8, e_status = Completed\<rparr>,
         \<lparr>e_enrollment_id = 2, e_student_id = 1, e_offering_id = 2, e_grade = None,
          e_grade_point = None, e_status = Completed\<rparr>,
         \<lparr>e_enrollment_id = 3, e_student_id = 1, e_offering_id = 3, e_grade = Some ''C'',
          e_grade_point = Some 6, e_status = Completed\<rparr>,
         \<lparr>e_enrollment_id = 4, e_student_id = 2, e_offering_id = 1, e_grade = Some ''A'',
          e_grade_point = Some 8, e_status = Completed\<rparr>,
         \<lparr>e_enrollment_id = 5, e_student_id = 2, e_offering_id = 3, e_grade = Some ''C'',
          e_grade_point = Some 6, e_status = Completed\<rparr>,
         \<lparr>e_enrollment_id = 6, e_student_id = 3, e_offering_id = 1, e_grade = Some ''A'',
          e_grade_point = Some 8, e_status = Completed\<rparr>,
         \<lparr>e_enrollment_id = 7, e_student_id = 3, e_offering_id = 4, e_grade = Some ''A+'',
          e_grade_point = Some 9, e_status = Completed\<rparr>],
      attendance_records = [], course_tas = []\<rparr>"




section \<open>Joins on a key\<close>

text \<open>When a key is unique in a table, a join on that key meets exactly one row.\<close>

lemma concat_map_unique:
  assumes "distinct (map f xs)" and "x \<in> set xs"
    and "\<And>y. y \<in> set xs \<Longrightarrow> f y \<noteq> f x \<Longrightarrow> F y = []"
  shows "concat (map F xs) = F x"
  using assms
proof (induction xs)
  case Nil
  then show ?case by simp
next
  case (Cons a xs)
  show ?case
  proof (cases "a = x")
    case True
    have "\<forall>y \<in> set xs. F y = []"
    proof
      fix y assume y: "y \<in> set xs"
      then have "f y \<in> f ` set xs" by simp
      then have "f y \<noteq> f x" using Cons.prems(1) True by auto
      then show "F y = []" using Cons.prems(3) y by simp
    qed
    then have "concat (map F xs) = []" by simp
    then show ?thesis using True by simp
  next
    case False
    then have xin: "x \<in> set xs" using Cons.prems(2) by simp
    then have "f x \<in> f ` set xs" by simp
    then have "f a \<noteq> f x" using Cons.prems(1) by auto
    then have "F a = []" using Cons.prems(3) by simp
    moreover have "concat (map F xs) = F x"
      using Cons.IH Cons.prems xin by simp
    ultimately show ?thesis by simp
  qed
qed

lemma distinct_map_key:
  assumes "distinct (map f xs)" and "x \<in> set xs" and "y \<in> set xs" and "f x = f y"
  shows "x = y"
  using assms by (meson distinct_map inj_onD)

lemma find_unique:
  assumes "distinct (map f xs)" and "x \<in> set xs"
  shows "find (\<lambda>y. f y = f x) xs = Some x"
  using assms by (induction xs) (auto simp: image_iff)

lemma concat_map_if_find:
  assumes "distinct xs"
    and "\<And>x y. x \<in> set xs \<Longrightarrow> y \<in> set xs \<Longrightarrow> P x \<Longrightarrow> P y \<Longrightarrow> x = y"
  shows "concat (map (\<lambda>y. if P y then G y else []) xs)
           = (case find P xs of None \<Rightarrow> [] | Some y \<Rightarrow> G y)"
  using assms
proof (induction xs)
  case Nil
  then show ?case by simp
next
  case (Cons a xs)
  show ?case
  proof (cases "P a")
    case True
    have "\<forall>y \<in> set xs. \<not> P y"
    proof
      fix y assume y: "y \<in> set xs"
      show "\<not> P y"
      proof
        assume "P y"
        then have "a = y" using Cons.prems(2)[of a y] True y by simp
        then show False using Cons.prems(1) y by simp
      qed
    qed
    then have "concat (map (\<lambda>y. if P y then G y else []) xs) = []" by simp
    then show ?thesis using True by simp
  next
    case False
    have "concat (map (\<lambda>y. if P y then G y else []) xs)
            = (case find P xs of None \<Rightarrow> [] | Some y \<Rightarrow> G y)"
      using Cons.IH Cons.prems by simp
    then show ?thesis using False by simp
  qed
qed

lemma distinct_map_concat_unique:
  assumes "distinct (map f xs)"
    and "\<And>x. x \<in> set xs \<Longrightarrow> length (F x) \<le> 1"
    and "\<And>x y. x \<in> set xs \<Longrightarrow> y \<in> set (F x) \<Longrightarrow> g y = f x"
  shows "distinct (map g (concat (map F xs)))"
  using assms
proof (induction xs)
  case Nil
  then show ?case by simp
next
  case (Cons a xs)
  have rest: "distinct (map g (concat (map F xs)))"
    using Cons.IH Cons.prems by simp
  have one: "distinct (map g (F a))"
    using Cons.prems(2)[of a] by (cases "F a") (simp_all add: Suc_le_eq)
  have disj: "set (map g (F a)) \<inter> set (map g (concat (map F xs))) = {}"
  proof (rule ccontr)
    assume "set (map g (F a)) \<inter> set (map g (concat (map F xs))) \<noteq> {}"
    then obtain v where va: "v \<in> set (map g (F a))" and vr: "v \<in> set (map g (concat (map F xs)))"
      by blast
    from va obtain y where "y \<in> set (F a)" and "v = g y" by auto
    then have v1: "v = f a" using Cons.prems(3)[of a y] by simp
    from vr obtain x z where x: "x \<in> set xs" and "z \<in> set (F x)" and "v = g z" by auto
    then have v2: "v = f x" using Cons.prems(3)[of x z] by simp
    have "f a \<notin> f ` set xs" using Cons.prems(1) by simp
    moreover have "f a \<in> f ` set xs" using v1 v2 x by (metis imageI)
    ultimately show False by contradiction
  qed
  show ?case using rest one disj by simp
qed

section \<open>Properties of the numeric division\<close>

lemma round_var_error: "\<bar>round_var x s - x\<bar> \<le> 1 / (2 * 10 ^ s)"
proof -
  have key: "\<bar>of_int \<lfloor>y * 10 ^ s + 1 / 2\<rfloor> / 10 ^ s - y\<bar> \<le> 1 / (2 * 10 ^ s)" for y :: rat
  proof -
    let ?p = "(10::rat) ^ s"
    have p: "0 < ?p" by simp
    let ?z = "y * ?p + 1 / 2"
    have lo: "of_int \<lfloor>?z\<rfloor> \<le> ?z" by (rule of_int_floor_le)
    have hi: "?z < of_int \<lfloor>?z\<rfloor> + 1" using floor_correct[of ?z] by simp
    have A: "\<bar>of_int \<lfloor>?z\<rfloor> - y * ?p\<bar> \<le> 1 / 2" using lo hi by linarith
    have B: "\<bar>of_int \<lfloor>?z\<rfloor> - y * ?p\<bar> / ?p \<le> (1 / 2) / ?p"
      by (rule divide_right_mono[OF A]) simp
    have C: "(1 / 2) / ?p = 1 / (2 * ?p)" by simp
    have D: "\<bar>of_int \<lfloor>?z\<rfloor> - y * ?p\<bar> / ?p = \<bar>of_int \<lfloor>?z\<rfloor> / ?p - y\<bar>"
    proof -
      have "of_int \<lfloor>?z\<rfloor> / ?p - y = (of_int \<lfloor>?z\<rfloor> - y * ?p) / ?p"
        by (simp add: diff_divide_distrib)
      then show ?thesis by (simp add: abs_divide)
    qed
    show ?thesis using B unfolding C D .
  qed
  show ?thesis
  proof (cases "0 \<le> x")
    case True
    then show ?thesis using key[of x] by (simp add: round_var_def)
  next
    case False
    have "\<bar>- (of_int \<lfloor>- x * 10 ^ s + 1 / 2\<rfloor> / 10 ^ s) - x\<bar>
            = \<bar>of_int \<lfloor>(- x) * 10 ^ s + 1 / 2\<rfloor> / 10 ^ s - (- x)\<bar>"
      by (simp add: abs_minus_commute[symmetric] algebra_simps)
    then show ?thesis using False key[of "- x"] by (simp add: round_var_def)
  qed
qed


lemma base10000_weight_mono: "n \<le> m \<Longrightarrow> base10000_weight n \<le> base10000_weight m"
proof (induction n arbitrary: m rule: base10000_weight.induct)
  case (1 n)
  show ?case
  proof (cases "n < 10000")
    case True
    then show ?thesis by (simp add: base10000_weight.simps[of n])
  next
    case False
    then have m: "\<not> m < 10000" using "1.prems" by simp
    have "n div 10000 \<le> m div 10000" using "1.prems" by (rule div_le_mono)
    then have "base10000_weight (n div 10000) \<le> base10000_weight (m div 10000)"
      using "1.IH" False by simp
    then show ?thesis
      using False m by (simp add: base10000_weight.simps[of n] base10000_weight.simps[of m])
  qed
qed

lemma quotient_weight:
  fixes n m :: nat
  assumes lt: "n < 10000 * m"
  shows "base10000_weight n \<le> Suc (base10000_weight m)
         \<and> (base10000_weight n = Suc (base10000_weight m) \<longrightarrow>
              n div 10000 ^ base10000_weight n \<le> m div 10000 ^ base10000_weight m)"
proof (cases "n < 10000")
  case True
  then show ?thesis by (simp add: base10000_weight.simps[of n])
next
  case False
  have le: "n div 10000 \<le> m" using lt by simp
  have w: "base10000_weight n = Suc (base10000_weight (n div 10000))"
    using False by (simp add: base10000_weight.simps[of n])
  have mono: "base10000_weight (n div 10000) \<le> base10000_weight m"
    using le by (rule base10000_weight_mono)
  have digit: "n div 10000 ^ base10000_weight n \<le> m div 10000 ^ base10000_weight m"
    if eq: "base10000_weight n = Suc (base10000_weight m)"
  proof -
    have "n div 10000 ^ base10000_weight n = (n div 10000) div 10000 ^ base10000_weight m"
      unfolding eq by (simp add: div_mult2_eq)
    also have "\<dots> \<le> m div 10000 ^ base10000_weight m"
      using le by (rule div_le_mono)
    finally show ?thesis .
  qed
  show ?thesis using w mono digit by simp
qed


lemma select_div_scale_ge_16:
  assumes D: "1 \<le> D" and lt: "\<bar>N\<bar> < 10000 * of_int D"
  shows "16 \<le> select_div_scale N s1 (of_int D) s2"
proof -
  let ?m = "nat D"
  have w2: "numeric_weight (of_int D) = int (base10000_weight ?m)"
    using D by (simp add: numeric_weight_def Let_def)
  have f2: "numeric_first_digit (of_int D) = int (?m div 10000 ^ base10000_weight ?m)"
    using D by (simp add: numeric_first_digit_def Let_def zdiv_int)
  let ?q = "numeric_weight N - numeric_weight (of_int D)
              - (if numeric_first_digit N \<le> numeric_first_digit (of_int D) then 1 else 0)"
  have q: "?q \<le> 0"
  proof (cases "\<bar>N\<bar> = 0")
    case True
    then have "numeric_weight N = 0" and "numeric_first_digit N = 0"
      by (simp_all add: numeric_weight_def numeric_first_digit_def)
    then show ?thesis unfolding w2 f2 by simp
  next
    case nz: False
    show ?thesis
    proof (cases "1 \<le> \<bar>N\<bar>")
      case True
      let ?n = "nat \<lfloor>\<bar>N\<bar>\<rfloor>"
      have fl: "0 \<le> \<lfloor>\<bar>N\<bar>\<rfloor>" by simp
      have w1: "numeric_weight N = int (base10000_weight ?n)"
        using True nz by (simp add: numeric_weight_def Let_def)
      have "numeric_first_digit N = \<lfloor>\<bar>N\<bar>\<rfloor> div 10000 ^ base10000_weight ?n"
        using True nz by (simp add: numeric_first_digit_def Let_def)
      also have "\<dots> = int (?n div 10000 ^ base10000_weight ?n)"
        using fl by (simp add: zdiv_int)
      finally have f1: "numeric_first_digit N = int (?n div 10000 ^ base10000_weight ?n)" .
      have "\<lfloor>\<bar>N\<bar>\<rfloor> < 10000 * D"
        using lt by (simp add: floor_less_iff)
      then have "?n < 10000 * ?m" using D by linarith
      from quotient_weight[OF this]
      have a: "base10000_weight ?n \<le> Suc (base10000_weight ?m)"
        and b: "base10000_weight ?n = Suc (base10000_weight ?m) \<longrightarrow>
                  ?n div 10000 ^ base10000_weight ?n \<le> ?m div 10000 ^ base10000_weight ?m"
        by simp_all
      show ?thesis
      proof (cases "base10000_weight ?n = Suc (base10000_weight ?m)")
        case True
        then have "?n div 10000 ^ base10000_weight ?n \<le> ?m div 10000 ^ base10000_weight ?m"
          using b by simp
        then have "numeric_first_digit N \<le> numeric_first_digit (of_int D)"
          unfolding f1 f2 by simp
        then show ?thesis unfolding w1 w2 using True by simp
      next
        case False
        then have "base10000_weight ?n \<le> base10000_weight ?m" using a by simp
        then show ?thesis unfolding w1 w2 by simp
      qed
    next
      case False
      then have "numeric_weight N \<le> - 1"
        using nz by (simp add: numeric_weight_def Let_def)
      then show ?thesis unfolding w2 by simp
    qed
  qed
  have "16 \<le> 16 - ?q * 4" using q by simp
  then show ?thesis
    unfolding select_div_scale_def Let_def by simp
qed

lemma round_var_lower:
  fixes x :: rat
  assumes s: "2 \<le> s" and k: "of_int k / 100 \<le> x" and x0: "0 \<le> x"
  shows "of_int k / 100 \<le> round_var x s"
proof -
  let ?p = "(10::rat) ^ s"
  obtain j where j: "s = j + 2" using s by (metis add.commute le_Suc_ex)
  have p: "?p = 100 * 10 ^ j" unfolding j by (simp add: power_add)
  have A: "of_int k / 100 * ?p = of_int (k * 10 ^ j)" unfolding p by simp
  have B: "of_int k / 100 * ?p \<le> x * ?p"
    by (rule mult_right_mono[OF k]) simp
  have "of_int (k * 10 ^ j) \<le> x * ?p + 1 / 2" using A B by linarith
  then have "k * 10 ^ j \<le> \<lfloor>x * ?p + 1 / 2\<rfloor>" by (simp add: le_floor_iff)
  then have "(of_int (k * 10 ^ j) :: rat) \<le> of_int \<lfloor>x * ?p + 1 / 2\<rfloor>" by linarith
  then have C: "(of_int (k * 10 ^ j) :: rat) / ?p \<le> of_int \<lfloor>x * ?p + 1 / 2\<rfloor> / ?p"
    by (rule divide_right_mono) simp
  have D: "(of_int (k * 10 ^ j) :: rat) / ?p = of_int k / 100" unfolding p by simp
  have R: "round_var x s = of_int \<lfloor>x * ?p + 1 / 2\<rfloor> / ?p"
    using x0 by (simp add: round_var_def)
  show ?thesis unfolding R using C unfolding D .
qed

section \<open>Properties of the attendance statistics\<close>

text \<open>With fewer than 10^14 class days, the rounding of the quotient does not show after
  the truncation to two decimals.\<close>

lemma attendance_quotient_rounding_unseen:
  fixes a t :: int
  assumes a0: "0 \<le> a" and at: "a \<le> t" and t0: "0 < t" and tb: "t < 10 ^ 14"
  shows "\<exists>q. numeric_div_round (of_int a * 100) 1 (of_int t) 0 = Inr q
             \<and> TRUNC q 2 = TRUNC (of_int a * 100 / of_int t) 2"
proof -
  let ?N = "(of_int a :: rat) * 100"
  let ?x = "?N / of_int t"
  let ?s = "select_div_scale ?N 1 (of_int t) 0"
  let ?q = "round_var ?x ?s"
  let ?k = "(a * 10000) div t"
  have run: "numeric_div_round ?N 1 (of_int t) 0 = Inr ?q"
    using t0 by (simp add: numeric_div_round_def)
  have x0: "0 \<le> ?x" using a0 t0 by simp
  have "\<bar>?N\<bar> \<le> 100 * of_int t" using a0 at by simp
  also have "\<dots> < 10000 * of_int t" using t0 by simp
  finally have s16: "16 \<le> ?s" using t0 by (intro select_div_scale_ge_16) simp_all
  have x100: "?x * 100 = of_int (a * 10000) / of_int t" by simp
  have fl: "\<lfloor>?x * 100\<rfloor> = ?k"
    unfolding x100 by (rule floor_divide_of_int_eq)
  have klo: "of_int ?k / 100 \<le> ?x"
  proof -
    have "of_int ?k \<le> ?x * 100" unfolding fl[symmetric] by (rule of_int_floor_le)
    then show ?thesis by simp
  qed
  have lo: "of_int ?k / 100 \<le> ?q"
    using s16 klo x0 by (intro round_var_lower) simp_all
  have q0: "0 \<le> ?q"
  proof -
    have "0 \<le> ?k" using a0 t0 by (simp add: pos_imp_zdiv_nonneg_iff)
    then have "(0::rat) \<le> of_int ?k / 100" by simp
    then show ?thesis using lo by linarith
  qed
  have rem: "a * 10000 = ?k * t + (a * 10000) mod t" by simp
  have "(a * 10000) mod t \<le> t - 1" using t0 by simp
  then have "a * 10000 \<le> ?k * t + t - 1" using rem by linarith
  then have "(of_int (a * 10000) :: rat) \<le> of_int (?k * t + t - 1)" by (rule of_int_le_iff[THEN iffD2])
  then have "(of_int (a * 10000) :: rat) / of_int t \<le> of_int (?k * t + t - 1) / of_int t"
    using t0 by (simp add: divide_right_mono)
  moreover have "(of_int (?k * t + t - 1) :: rat) / of_int t = of_int ?k + 1 - 1 / of_int t"
    using t0 by (simp add: field_simps)
  ultimately have xhi: "?x * 100 \<le> of_int ?k + 1 - 1 / of_int t"
    unfolding x100 by simp
  have err: "?q - ?x \<le> 1 / (2 * 10 ^ ?s)"
    using round_var_error[of ?x ?s] by linarith
  have "(10::rat) ^ 16 \<le> 10 ^ ?s" by (rule power_increasing[OF s16]) simp
  then have "1 / (2 * (10::rat) ^ ?s) \<le> 1 / (2 * 10 ^ 16)" by (simp add: frac_le)
  then have err16: "?q - ?x \<le> 1 / (2 * 10 ^ 16)" using err by linarith
  have "(of_int t :: rat) < 10 ^ 14" using tb by (metis of_int_less_iff of_int_numeral of_int_power)
  then have "1 / (10::rat) ^ 14 < 1 / of_int t"
    using t0 by (simp add: frac_less2)
  then have tiny: "100 * (1 / (2 * (10::rat) ^ 16)) < 1 / of_int t" by simp
  have "?q * 100 \<le> ?x * 100 + 100 * (1 / (2 * 10 ^ 16))" using err16 by simp
  then have hi: "?q * 100 < of_int ?k + 1" using xhi tiny by linarith
  have lo': "of_int ?k \<le> ?q * 100" using lo by simp
  have "\<lfloor>?q * 100\<rfloor> = ?k" using lo' hi by (simp add: floor_unique)
  then have "TRUNC ?q 2 = TRUNC ?x 2"
    using q0 x0 fl by (simp add: TRUNC_def)
  with run show ?thesis by blast
qed

lemma attendance_percentage_value:
  "attendance_percentage t a = Inr (if 0 < t then TRUNC (of_int a * 100 / of_int t) 2 else 0)"
  by (simp add: attendance_percentage_def numeric_div_def)

lemma collect_rows_Inr: "collect_rows (map (\<lambda>k. Inr (h k)) ks) = Inr (map h ks)"
  by (induction ks) simp_all

lemma stats_select_value: "stats_select t k g = Inr (stats_row_of t k g)"
  by (simp add: stats_select_def attendance_percentage_value stats_row_of_def)

lemma get_course_attendance_stats_rows:
  "get_course_attendance_stats d o_id =
     Inr (map (\<lambda>k. stats_row_of (get_total_class_days d o_id) k
                     (filter (\<lambda>r. stats_group_key r = k) (stats_from d o_id)))
              (remdups (map stats_group_key (stats_from d o_id))))"
  by (simp add: get_course_attendance_stats_def Let_def stats_select_value collect_rows_Inr)

lemma in_stats_from:
  "(e, s, u, ar) \<in> set (stats_from d o_id) \<longleftrightarrow>
     e \<in> set (enrollments d) \<and> s \<in> set (students d) \<and> e_student_id e = s_student_id s
     \<and> u \<in> set (users d) \<and> s_student_id s = u_user_id u
     \<and> ar \<in> set (left_join_attendance d e)
     \<and> e_offering_id e = o_id \<and> e_status e = Enrolled"
  by (auto simp: stats_from_def)

lemma stats_group:
  assumes pks: "pk_students d" and pku: "pk_users d" and ue: "unique_enrollments d"
    and mem: "(e, s, u, ar) \<in> set (stats_from d o_id)"
  shows "filter (\<lambda>r. stats_group_key r = stats_group_key (e, s, u, ar)) (stats_from d o_id)
           = map (\<lambda>a. (e, s, u, a)) (left_join_attendance d e)"
proof -
  let ?P = "\<lambda>r. stats_group_key r = stats_group_key (e, s, u, ar)"
  let ?U = "\<lambda>e' s' u'. if s_student_id s' = u_user_id u'
                then concat (map (\<lambda>a. if e_offering_id e' = o_id \<and> e_status e' = Enrolled
                                       then [(e', s', u', a)] else [])
                                 (left_join_attendance d e'))
                else []"
  let ?S = "\<lambda>e' s'. if e_student_id e' = s_student_id s'
                then concat (map (?U e' s') (users d)) else []"
  let ?E = "\<lambda>e'. concat (map (?S e') (students d))"
  from mem have e: "e \<in> set (enrollments d)" and s: "s \<in> set (students d)"
    and es: "e_student_id e = s_student_id s" and u: "u \<in> set (users d)"
    and su: "s_student_id s = u_user_id u" and eo: "e_offering_id e = o_id"
    and en: "e_status e = Enrolled"
    by (simp_all add: in_stats_from)
  have J: "stats_from d o_id = concat (map ?E (enrollments d))"
    by (simp add: stats_from_def)
  have "filter ?P (stats_from d o_id) = concat (map (\<lambda>e'. filter ?P (?E e')) (enrollments d))"
    unfolding J by (simp add: filter_concat comp_def)
  also have "\<dots> = filter ?P (?E e)"
  proof (rule concat_map_unique[where f = "\<lambda>e. (e_student_id e, e_offering_id e)"])
    show "distinct (map (\<lambda>e. (e_student_id e, e_offering_id e)) (enrollments d))"
      using ue by (simp add: unique_enrollments_def)
    show "e \<in> set (enrollments d)" by (rule e)
  next
    fix y assume y: "y \<in> set (enrollments d)"
      and ne: "(e_student_id y, e_offering_id y) \<noteq> (e_student_id e, e_offering_id e)"
    show "filter ?P (?E y) = []"
      using ne es eo by (auto simp: filter_empty_conv stats_group_key_def)
  qed
  also have "\<dots> = concat (map (\<lambda>s'. filter ?P (?S e s')) (students d))"
    by (simp add: filter_concat comp_def)
  also have "\<dots> = filter ?P (?S e s)"
  proof (rule concat_map_unique[where f = s_student_id])
    show "distinct (map s_student_id (students d))" using pks by (simp add: pk_students_def)
    show "s \<in> set (students d)" by (rule s)
  next
    fix y assume "y \<in> set (students d)" and "s_student_id y \<noteq> s_student_id s"
    then show "filter ?P (?S e y) = []" using es by simp
  qed
  also have "\<dots> = concat (map (\<lambda>u'. filter ?P (?U e s u')) (users d))"
    using es by (simp add: filter_concat comp_def)
  also have "\<dots> = filter ?P (?U e s u)"
  proof (rule concat_map_unique[where f = u_user_id])
    show "distinct (map u_user_id (users d))" using pku by (simp add: pk_users_def)
    show "u \<in> set (users d)" by (rule u)
  next
    fix y assume "y \<in> set (users d)" and "u_user_id y \<noteq> u_user_id u"
    then show "filter ?P (?U e s y) = []" using su by simp
  qed
  also have "\<dots> = map (\<lambda>a. (e, s, u, a)) (left_join_attendance d e)"
    using su eo en by (induction "left_join_attendance d e") (simp_all add: stats_group_key_def)
  finally show ?thesis .
qed

lemma count_present_left_join:
  "count_present (map (\<lambda>a. (e, s, u, a)) (left_join_attendance d e))
     = spec_present_count d (e_student_id e) (e_offering_id e)"
proof -
  let ?m = "filter (\<lambda>ar. e_offering_id e = ar_offering_id ar \<and> e_student_id e = ar_student_id ar)
              (attendance_records d)"
  have "length (filter is_present (map (\<lambda>a. (e, s, u, a)) (left_join_attendance d e)))
          = length (filter (\<lambda>a. ar_status a = Present) ?m)"
    by (cases "?m = []")
       (simp_all add: left_join_attendance_def is_present_def filter_map comp_def)
  also have "filter (\<lambda>a. ar_status a = Present) ?m
          = filter (\<lambda>ar. ar_offering_id ar = e_offering_id e \<and> ar_student_id ar = e_student_id e
                          \<and> ar_status ar = Present) (attendance_records d)"
    unfolding filter_filter by (rule filter_cong) auto
  finally show ?thesis by (simp add: count_present_def spec_present_count_def)
qed

lemma left_join_attendance_nonempty: "left_join_attendance d e \<noteq> []"
  by (simp add: left_join_attendance_def Let_def)

lemma stats_row_exists:
  assumes fke: "fk_enrollments_student d" and fks: "fk_students_user d"
    and e: "e \<in> set (enrollments d)" and eo: "e_offering_id e = o_id"
    and en: "e_status e = Enrolled"
    and run: "get_course_attendance_stats d o_id = Inr rows"
  shows "\<exists>r \<in> set rows. st_student_id r = e_student_id e"
proof -
  let ?T = "get_total_class_days d o_id"
  let ?J = "stats_from d o_id"
  let ?f = "\<lambda>k. stats_row_of ?T k (filter (\<lambda>r. stats_group_key r = k) ?J)"
  have rows: "rows = map ?f (remdups (map stats_group_key ?J))"
    using run by (simp add: get_course_attendance_stats_rows)
  from fke e obtain s where s: "s \<in> set (students d)" and es: "s_student_id s = e_student_id e"
    by (auto simp: fk_enrollments_student_def)
  from fks s obtain u where u: "u \<in> set (users d)" and su: "u_user_id u = s_student_id s"
    by (auto simp: fk_students_user_def)
  obtain a where a: "a \<in> set (left_join_attendance d e)"
    using left_join_attendance_nonempty[of d e] by (cases "left_join_attendance d e") auto
  have mem: "(e, s, u, a) \<in> set ?J"
    using e s u es su a eo en by (simp add: in_stats_from)
  let ?k = "stats_group_key (e, s, u, a)"
  have "?k \<in> stats_group_key ` set ?J" using mem by (rule imageI)
  then have "?f ?k \<in> set rows" unfolding rows by simp
  moreover have "st_student_id (?f ?k) = e_student_id e"
    by (simp add: stats_row_of_def stats_group_key_def es)
  ultimately show ?thesis by blast
qed

lemma stats_row_char:
  assumes pks: "pk_students d" and pku: "pk_users d" and ue: "unique_enrollments d"
    and run: "get_course_attendance_stats d o_id = Inr rows" and r: "r \<in> set rows"
  shows "\<exists>e s u. e \<in> set (enrollments d) \<and> e_offering_id e = o_id \<and> e_status e = Enrolled
           \<and> s \<in> set (students d) \<and> s_student_id s = e_student_id e
           \<and> u \<in> set (users d) \<and> u_user_id u = e_student_id e
           \<and> r = stats_row_of (get_total_class_days d o_id)
                   (e_student_id e, u_full_name u, s_roll_number s)
                   (map (\<lambda>a. (e, s, u, a)) (left_join_attendance d e))"
proof -
  have rows: "rows = map (\<lambda>k. stats_row_of (get_total_class_days d o_id) k
                     (filter (\<lambda>r. stats_group_key r = k) (stats_from d o_id)))
              (remdups (map stats_group_key (stats_from d o_id)))"
    using run by (simp add: get_course_attendance_stats_rows)
  have "r \<in> (\<lambda>k. stats_row_of (get_total_class_days d o_id) k
                     (filter (\<lambda>r. stats_group_key r = k) (stats_from d o_id)))
              ` (stats_group_key ` set (stats_from d o_id))"
    using r unfolding rows by simp
  then obtain k where k: "k \<in> stats_group_key ` set (stats_from d o_id)"
    and rk: "r = stats_row_of (get_total_class_days d o_id) k
                  (filter (\<lambda>r. stats_group_key r = k) (stats_from d o_id))"
    by blast
  from k obtain x where xm: "x \<in> set (stats_from d o_id)" and kx: "k = stats_group_key x"
    by blast
  obtain e s u ar where xv: "x = (e, s, u, ar)" by (cases x) auto
  have mem: "(e, s, u, ar) \<in> set (stats_from d o_id)" using xm xv by simp
  have kk: "k = stats_group_key (e, s, u, ar)" using kx xv by simp
  have g: "filter (\<lambda>r. stats_group_key r = k) (stats_from d o_id)
             = map (\<lambda>a. (e, s, u, a)) (left_join_attendance d e)"
    unfolding kk by (rule stats_group[OF pks pku ue mem])
  have kv: "k = (e_student_id e, u_full_name u, s_roll_number s)"
    using mem kk by (simp add: in_stats_from stats_group_key_def)
  have fields: "e \<in> set (enrollments d) \<and> e_offering_id e = o_id \<and> e_status e = Enrolled
           \<and> s \<in> set (students d) \<and> s_student_id s = e_student_id e
           \<and> u \<in> set (users d) \<and> u_user_id u = e_student_id e"
    using mem by (simp add: in_stats_from)
  have rv: "r = stats_row_of (get_total_class_days d o_id)
                   (e_student_id e, u_full_name u, s_roll_number s)
                   (map (\<lambda>a. (e, s, u, a)) (left_join_attendance d e))"
    using rk g kv by simp
  show ?thesis
    using fields rv by blast
qed

lemma present_le_total:
  assumes ua: "unique_attendance_records d"
  shows "spec_present_count d sid o_id \<le> get_total_class_days d o_id"
proof -
  let ?key = "\<lambda>ar. (ar_offering_id ar, ar_student_id ar, ar_date ar)"
  let ?P = "filter (\<lambda>ar. ar_offering_id ar = o_id \<and> ar_student_id ar = sid \<and> ar_status ar = Present)
              (attendance_records d)"
  let ?O = "filter (\<lambda>ar. ar_offering_id ar = o_id) (attendance_records d)"
  have dk: "distinct (map ?key ?P)"
    using ua by (simp add: unique_attendance_records_def distinct_map_filter)
  have "distinct (map ar_date ?P)"
  proof -
    have eq: "map ?key ?P = map (\<lambda>ar. (o_id, sid, ar_date ar)) ?P"
      by (rule map_cong) auto
    have "distinct (map (\<lambda>ar. (o_id, sid, ar_date ar)) ?P)"
      using dk unfolding eq .
    then have "distinct (map (\<lambda>t. (o_id, sid, t)) (map ar_date ?P))"
      by (simp add: comp_def)
    then show ?thesis by (rule distinct_map[THEN iffD1, THEN conjunct1])
  qed
  then have "card (set (map ar_date ?P)) = length (map ar_date ?P)"
    by (rule distinct_card)
  then have "length ?P = card (set (map ar_date ?P))"
    by simp
  also have "\<dots> \<le> card (set (map ar_date ?O))"
    by (rule card_mono) auto
  also have "\<dots> = length (remdups (map ar_date ?O))"
    by (simp add: length_remdups_card_conv)
  finally show ?thesis
    by (simp add: spec_present_count_def get_total_class_days_def)
qed

lemma TRUNC_bounds:
  assumes "0 \<le> x" and "x \<le> 100"
  shows "0 \<le> TRUNC x 2 \<and> TRUNC x 2 \<le> 100"
proof -
  have "x * 100 \<le> 10000" using assms by simp
  then have "\<lfloor>x * 100\<rfloor> \<le> 10000" by (simp add: floor_le_iff)
  then have up: "(of_int \<lfloor>x * 100\<rfloor> :: rat) \<le> 10000" by linarith
  have "0 \<le> x * 100" using assms by simp
  then have "0 \<le> \<lfloor>x * 100\<rfloor>" by simp
  then have lo: "(0::rat) \<le> of_int \<lfloor>x * 100\<rfloor>" by simp
  show ?thesis using assms lo up by (simp add: TRUNC_def)
qed

section \<open>Properties of the teacher's offerings\<close>

lemma date_desc_total: "date_desc a b \<or> date_desc b a"
  by (cases a; cases b) auto

lemma date_desc_trans: "date_desc a b \<Longrightarrow> date_desc b c \<Longrightarrow> date_desc a c"
  by (cases a; cases b; cases c) auto

lemma set_insert_desc: "set (insert_desc key x xs) = insert x (set xs)"
  by (induction xs) auto

lemma mset_insert_desc: "mset (insert_desc key x xs) = add_mset x (mset xs)"
  by (induction xs) auto

lemma sorted_insert_desc:
  assumes "sorted_wrt (\<lambda>a b. date_desc (key a) (key b)) xs"
  shows "sorted_wrt (\<lambda>a b. date_desc (key a) (key b)) (insert_desc key x xs)"
  using assms
proof (induction xs)
  case Nil
  then show ?case by simp
next
  case (Cons y ys)
  show ?case
  proof (cases "date_desc (key x) (key y)")
    case True
    then have "\<forall>z \<in> set ys. date_desc (key x) (key z)"
      using Cons.prems by (auto intro: date_desc_trans)
    then show ?thesis using True Cons.prems by simp
  next
    case False
    then have yx: "date_desc (key y) (key x)" using date_desc_total by blast
    have "sorted_wrt (\<lambda>a b. date_desc (key a) (key b)) (insert_desc key x ys)"
      using Cons by simp
    then show ?thesis using False yx Cons.prems by (simp add: set_insert_desc)
  qed
qed

lemma mset_order_by_desc: "mset (order_by_desc key xs) = mset xs"
  by (induction xs) (simp_all add: order_by_desc_def mset_insert_desc)

lemma set_order_by_desc: "set (order_by_desc key xs) = set xs"
  by (induction xs) (simp_all add: order_by_desc_def set_insert_desc)

lemma sorted_order_by_desc:
  "sorted_wrt (\<lambda>a b. date_desc (key a) (key b)) (order_by_desc key xs)"
  by (induction xs) (simp_all add: order_by_desc_def sorted_insert_desc)

lemma in_teacher_from:
  "(co, c, s) \<in> set (teacher_from d t_id) \<longleftrightarrow>
     co \<in> set (course_offerings d) \<and> c \<in> set (courses d) \<and> co_course_id co = c_course_id c
     \<and> s \<in> set (semesters d) \<and> co_semester_id co = Some (sem_semester_id s)
     \<and> co_teacher_id co = t_id"
  by (auto simp: teacher_from_def sql_eq_def split: option.splits)

lemma teacher_from_ids_distinct:
  assumes pkc: "pk_courses d" and pks: "pk_semesters d" and pko: "pk_course_offerings d"
  shows "distinct (map (co_offering_id \<circ> fst) (teacher_from d t_id))"
proof -
  define S :: "course_offering_row \<Rightarrow> course_row \<Rightarrow> teacher_join_row list"
    where "S = (\<lambda>co c. concat (map (\<lambda>s. if sql_eq (co_semester_id co) (Some (sem_semester_id s))
                                     then (if co_teacher_id co = t_id then [(co, c, s)] else [])
                                     else []) (semesters d)))"
  define F :: "course_offering_row \<Rightarrow> teacher_join_row list"
    where "F = (\<lambda>co. concat (map (\<lambda>c. if co_course_id co = c_course_id c then S co c else [])
                            (courses d)))"
  have J: "teacher_from d t_id = concat (map F (course_offerings d))"
    unfolding teacher_from_def F_def S_def by simp
  have dc: "distinct (courses d)" and ds: "distinct (semesters d)"
    using pkc pks by (simp_all add: pk_courses_def pk_semesters_def distinct_map)
  have S: "S co c = (case find (\<lambda>s. sql_eq (co_semester_id co) (Some (sem_semester_id s))) (semesters d)
                       of None \<Rightarrow> []
                        | Some s \<Rightarrow> (if co_teacher_id co = t_id then [(co, c, s)] else []))" for co c
    unfolding S_def
  proof (rule concat_map_if_find[OF ds])
    fix x y assume "x \<in> set (semesters d)" "y \<in> set (semesters d)"
      "sql_eq (co_semester_id co) (Some (sem_semester_id x))"
      "sql_eq (co_semester_id co) (Some (sem_semester_id y))"
    then show "x = y"
      using pks unfolding pk_semesters_def
      by (auto simp: sql_eq_def split: option.splits intro: distinct_map_key)
  qed
  have F: "F co = (case find (\<lambda>c. co_course_id co = c_course_id c) (courses d)
                     of None \<Rightarrow> [] | Some c \<Rightarrow> S co c)" for co
    unfolding F_def
  proof (rule concat_map_if_find[OF dc])
    fix x y assume "x \<in> set (courses d)" "y \<in> set (courses d)"
      "co_course_id co = c_course_id x" "co_course_id co = c_course_id y"
    then show "x = y"
      using pkc unfolding pk_courses_def by (auto intro: distinct_map_key)
  qed
  have lenS: "length (S co c) \<le> Suc 0" for co c
    by (simp add: S split: option.splits)
  have len: "length (F co) \<le> Suc 0" for co
    by (simp add: F lenS split: option.splits)
  have inS: "(co_offering_id \<circ> fst) y = co_offering_id co" if "y \<in> set (S co c)" for co c y
    using that by (auto simp: S_def split: if_splits)
  have inF: "(co_offering_id \<circ> fst) y = co_offering_id co" if "y \<in> set (F co)" for co y
  proof -
    from that obtain c where "y \<in> set (S co c)"
      by (auto simp: F_def split: if_splits)
    then show ?thesis by (rule inS)
  qed
  show ?thesis
    unfolding J
  proof (rule distinct_map_concat_unique[where f = co_offering_id])
    show "distinct (map co_offering_id (course_offerings d))"
      using pko by (simp add: pk_course_offerings_def)
    show "length (F x) \<le> 1" for x using len[of x] by simp
    show "(co_offering_id \<circ> fst) y = co_offering_id x" if "y \<in> set (F x)" for x y
      using that by (rule inF)
  qed
qed

lemma spec_start_date_select:
  assumes pks: "pk_semesters d" and mem: "(co, c, s) \<in> set (teacher_from d t_id)"
  shows "spec_start_date d (teacher_select d (co, c, s)) = sem_start_date s"
proof -
  from mem have s: "s \<in> set (semesters d)" and cs: "co_semester_id co = Some (sem_semester_id s)"
    by (simp_all add: in_teacher_from)
  have "find (\<lambda>x. sem_semester_id x = sem_semester_id s) (semesters d) = Some s"
    using pks s unfolding pk_semesters_def by (rule find_unique)
  then show ?thesis
    by (simp add: spec_start_date_def teacher_select_def cs)
qed

section \<open>Properties of the grade point averages\<close>

lemma sum_list_pos_rat:
  assumes "xs \<noteq> []" and "\<forall>x \<in> set xs. (0::rat) < x"
  shows "0 < sum_list xs"
  using assms
proof (induction xs)
  case Nil
  then show ?case by simp
next
  case (Cons a xs)
  show ?case
  proof (cases "xs = []")
    case True
    then show ?thesis using Cons.prems by simp
  next
    case False
    then have "0 < sum_list xs" using Cons by simp
    moreover have "0 < a" using Cons.prems by simp
    ultimately show ?thesis by simp
  qed
qed

lemma non_null_Nil: "non_null [] = []"
  by (simp add: non_null_def)

lemma non_null_Cons: "non_null (x # xs) = (case x of None \<Rightarrow> [] | Some v \<Rightarrow> [v]) @ non_null xs"
  by (simp add: non_null_def)

lemma gpa_pairs_Nil [simp]: "gpa_pairs [] = []"
  by (simp add: gpa_pairs_def)

lemma gpa_pairs_Cons:
  "gpa_pairs ((e, c) # rows) =
     (case c_credits c of None \<Rightarrow> []
      | Some cr \<Rightarrow> (case e_grade_point e of None \<Rightarrow> [] | Some g \<Rightarrow> [(cr, g)])) @ gpa_pairs rows"
  by (simp add: gpa_pairs_def)

lemma gpa_pairs_append: "gpa_pairs (xs @ ys) = gpa_pairs xs @ gpa_pairs ys"
  by (simp add: gpa_pairs_def)

lemma gpa_pairs_concat: "gpa_pairs (concat xss) = concat (map gpa_pairs xss)"
  by (induction xss) (simp_all add: gpa_pairs_append)

lemma gpa_numerator:
  assumes "\<forall>(e, c) \<in> set rows. e_grade_point e \<noteq> None"
  shows "non_null (map (\<lambda>(e, c). sql_times (c_credits c) (e_grade_point e)) rows)
           = map (\<lambda>(cr, g). of_int cr * g) (gpa_pairs rows)"
  using assms
proof (induction rows)
  case Nil
  then show ?case by (simp add: non_null_Nil)
next
  case (Cons r rows)
  obtain e c where r: "r = (e, c)" by (cases r) auto
  show ?case
    using Cons unfolding r
    by (auto simp: gpa_pairs_Cons non_null_Cons sql_times_def split: option.splits)
qed

lemma gpa_denominator:
  assumes "\<forall>(e, c) \<in> set rows. e_grade_point e \<noteq> None"
  shows "non_null (map (\<lambda>(e, c). map_option of_int (c_credits c)) rows)
           = map (\<lambda>(cr, g). of_int cr) (gpa_pairs rows)"
  using assms
proof (induction rows)
  case Nil
  then show ?case by (simp add: non_null_Nil)
next
  case (Cons r rows)
  obtain e c where r: "r = (e, c)" by (cases r) auto
  show ?case
    using Cons unfolding r
    by (auto simp: gpa_pairs_Cons non_null_Cons split: option.splits)
qed

lemma gpa_pairs_credits_pos:
  assumes "\<forall>(e, c) \<in> set rows. courses_credits_check c"
  shows "\<forall>(cr, g) \<in> set (gpa_pairs rows). 0 < cr"
  using assms
  by (auto simp: gpa_pairs_def courses_credits_check_def split: option.splits)

lemma gpa_select_value:
  assumes gp: "\<forall>(e, c) \<in> set rows. e_grade_point e \<noteq> None"
    and chk: "\<forall>(e, c) \<in> set rows. courses_credits_check c"
  shows "gpa_select rows = Inr (numeric_credit_weighted_average (gpa_pairs rows))"
proof (cases "gpa_pairs rows = []")
  case True
  then show ?thesis
    by (simp add: gpa_select_def sql_sum_def gpa_numerator[OF gp] gpa_denominator[OF gp]
          sql_divide_def numeric_credit_weighted_average_def)
next
  case False
  let ?den = "map (\<lambda>(cr, g). (of_int cr :: rat)) (gpa_pairs rows)"
  have "\<forall>x \<in> set ?den. 0 < x"
    using gpa_pairs_credits_pos[OF chk] by auto
  moreover have "?den \<noteq> []" using False by simp
  ultimately have "0 < sum_list ?den" by (rule sum_list_pos_rat[rotated])
  then have nz: "sum_list ?den \<noteq> 0" by simp
  show ?thesis
    using False nz
    by (simp add: gpa_select_def sql_sum_def gpa_numerator[OF gp] gpa_denominator[OF gp]
          sql_divide_def numeric_div_round_def numeric_credit_weighted_average_def)
qed

lemma sum_credits_of_int:
  "sum_list (map (\<lambda>(cr, g). (of_int cr :: rat)) ps) = of_int (sum_list (map fst ps))"
  by (induction ps) (simp_all add: split_def)

lemma sum_credits_pos:
  assumes "ps \<noteq> []" and "\<forall>(cr, g) \<in> set ps. (0::int) < cr"
  shows "1 \<le> sum_list (map fst ps)"
  using assms
proof (induction ps)
  case Nil
  then show ?case by simp
next
  case (Cons p ps)
  have p: "0 < fst p" using Cons.prems(2) by (cases p) simp
  show ?case
  proof (cases "ps = []")
    case True
    then show ?thesis using p by simp
  next
    case False
    then have "1 \<le> sum_list (map fst ps)" using Cons by simp
    then show ?thesis using p by simp
  qed
qed

lemma sum_grade_points_bound:
  fixes ps :: "(int \<times> rat) list"
  assumes "\<forall>(cr, g) \<in> set ps. 0 < cr \<and> \<bar>g\<bar> < 100"
  shows "\<bar>sum_list (map (\<lambda>(cr, g). of_int cr * g) ps)\<bar> \<le> 100 * of_int (sum_list (map fst ps))"
  using assms
proof (induction ps)
  case Nil
  then show ?case by simp
next
  case (Cons p ps)
  obtain cr g where p: "p = (cr, g)" by (cases p) auto
  have cr: "0 < cr" and g: "\<bar>g\<bar> < 100" using Cons.prems p by simp_all
  have rest: "\<bar>sum_list (map (\<lambda>(cr, g). of_int cr * g) ps)\<bar>
                \<le> 100 * of_int (sum_list (map fst ps))"
    using Cons by simp
  have "\<bar>of_int cr * g\<bar> = of_int cr * \<bar>g\<bar>"
    using cr by (simp add: abs_mult)
  also have "\<dots> \<le> of_int cr * 100"
    using cr g by (simp add: mult_left_mono)
  finally have one: "\<bar>of_int cr * g\<bar> \<le> 100 * of_int cr" by (simp add: mult.commute)
  have "\<bar>of_int cr * g + sum_list (map (\<lambda>(cr, g). of_int cr * g) ps)\<bar>
          \<le> \<bar>of_int cr * g\<bar> + \<bar>sum_list (map (\<lambda>(cr, g). of_int cr * g) ps)\<bar>"
    by (rule abs_triangle_ineq)
  also have "\<dots> \<le> 100 * of_int cr + 100 * of_int (sum_list (map fst ps))"
    using one rest by (rule add_mono)
  finally show ?case by (simp add: p algebra_simps)
qed

lemma numeric_average_close:
  fixes ps :: "(int \<times> rat) list"
  assumes ok: "\<forall>(cr, g) \<in> set ps. 0 < cr \<and> \<bar>g\<bar> < 100"
  shows "\<bar>numeric_credit_weighted_average ps - credit_weighted_average ps\<bar>
           \<le> 1 / (2 * 10 ^ 16)"
proof (cases "ps = []")
  case True
  then show ?thesis
    by (simp add: numeric_credit_weighted_average_def credit_weighted_average_def)
next
  case False
  let ?N = "sum_list (map (\<lambda>(cr, g). of_int cr * g) ps)"
  let ?D = "sum_list (map fst ps)"
  let ?s = "select_div_scale ?N 2 (of_int ?D) 0"
  have pos: "\<forall>(cr, g) \<in> set ps. (0::int) < cr" using ok by auto
  have D: "1 \<le> ?D" using False pos by (rule sum_credits_pos)
  have "\<bar>?N\<bar> \<le> 100 * of_int ?D" using ok by (rule sum_grade_points_bound)
  also have "\<dots> < 10000 * of_int ?D" using D by simp
  finally have lt: "\<bar>?N\<bar> < 10000 * of_int ?D" .
  have s: "16 \<le> ?s" using D lt by (rule select_div_scale_ge_16)
  have "(10::rat) ^ 16 \<le> 10 ^ ?s" by (rule power_increasing[OF s]) simp
  then have small: "1 / (2 * (10::rat) ^ ?s) \<le> 1 / (2 * 10 ^ 16)"
    by (simp add: frac_le)
  have "\<bar>round_var (?N / of_int ?D) ?s - ?N / of_int ?D\<bar> \<le> 1 / (2 * 10 ^ ?s)"
    by (rule round_var_error)
  then have "\<bar>round_var (?N / of_int ?D) ?s - ?N / of_int ?D\<bar> \<le> 1 / (2 * 10 ^ 16)"
    using small by (rule order_trans)
  then show ?thesis
    using False
    by (simp add: numeric_credit_weighted_average_def credit_weighted_average_def
          sum_credits_of_int)
qed

lemma in_spec_graded_credits:
  assumes chk: "courses_check d" and gpt: "enrollments_grade_point_type d"
    and mem: "(cr, g) \<in> set (spec_graded_credits d s_id in_scope)"
  shows "0 < cr \<and> \<bar>g\<bar> < 100"
proof -
  from mem obtain e co c where e: "e \<in> set (enrollments d)" and gp': "Some g = e_grade_point e"
    and fc': "Some c = spec_course_of d co" and crv': "Some cr = c_credits c"
    by (auto simp: spec_graded_credits_def split: option.splits if_splits)
  note gp = gp'[symmetric] and fc = fc'[symmetric] and crv = crv'[symmetric]
  have "c \<in> set (courses d)"
    using fc by (auto simp: spec_course_of_def find_Some_iff)
  then have "0 < cr"
    using chk crv by (auto simp: courses_check_def courses_credits_check_def)
  moreover have "\<bar>g\<bar> < 100"
    using gpt e gp by (auto simp: enrollments_grade_point_type_def decimal_4_2_def)
  ultimately show ?thesis by simp
qed

lemma in_sgpa_from:
  "(e, c) \<in> set (sgpa_from d s_id t) \<Longrightarrow> e_grade_point e \<noteq> None \<and> c \<in> set (courses d)"
  by (auto simp: sgpa_from_def split: if_splits)

lemma in_cgpa_from:
  "(e, c) \<in> set (cgpa_from d s_id m) \<Longrightarrow> e_grade_point e \<noteq> None \<and> c \<in> set (courses d)"
  by (auto simp: cgpa_from_def split: if_splits)

lemma sgpa_pairs:
  assumes pko: "pk_course_offerings d" and pkc: "pk_courses d"
  shows "gpa_pairs (sgpa_from d s_id t)
           = spec_graded_credits d s_id (\<lambda>co. co_semester_id co = Some t)"
proof -
  define C :: "enrollment_row \<Rightarrow> course_offering_row \<Rightarrow> (enrollment_row \<times> course_row) list"
    where "C = (\<lambda>e co. concat (map (\<lambda>c. if co_course_id co = c_course_id c
               then (if e_student_id e = s_id \<and> e_status e = Completed \<and> e_grade_point e \<noteq> None
                        \<and> sql_eq (co_semester_id co) (Some t) then [(e, c)] else [])
               else []) (courses d)))"
  define E :: "enrollment_row \<Rightarrow> (enrollment_row \<times> course_row) list"
    where "E = (\<lambda>e. concat (map (\<lambda>co. if e_offering_id e = co_offering_id co then C e co else [])
                  (course_offerings d)))"
  have J: "sgpa_from d s_id t = concat (map E (enrollments d))"
    unfolding sgpa_from_def E_def C_def by simp
  have dc: "distinct (courses d)" and dof: "distinct (course_offerings d)"
    using pkc pko by (simp_all add: pk_courses_def pk_course_offerings_def distinct_map)
  have C: "C e co = (case spec_course_of d co of None \<Rightarrow> []
                     | Some c \<Rightarrow> (if e_student_id e = s_id \<and> e_status e = Completed
                          \<and> e_grade_point e \<noteq> None \<and> sql_eq (co_semester_id co) (Some t)
                        then [(e, c)] else []))" for e co
    unfolding C_def spec_course_of_def
  proof (rule concat_map_if_find[OF dc])
    fix x y assume "x \<in> set (courses d)" "y \<in> set (courses d)"
      "co_course_id co = c_course_id x" "co_course_id co = c_course_id y"
    then show "x = y"
      using pkc unfolding pk_courses_def by (auto intro: distinct_map_key)
  qed
  have E: "E e = (case spec_offering_of d e of None \<Rightarrow> [] | Some co \<Rightarrow> C e co)" for e
    unfolding E_def spec_offering_of_def
  proof (rule concat_map_if_find[OF dof])
    fix x y assume "x \<in> set (course_offerings d)" "y \<in> set (course_offerings d)"
      "e_offering_id e = co_offering_id x" "e_offering_id e = co_offering_id y"
    then show "x = y"
      using pko unfolding pk_course_offerings_def by (auto intro: distinct_map_key)
  qed
  have each: "gpa_pairs (E e) =
        (if e_student_id e = s_id \<and> e_status e = Completed
         then (case e_grade_point e of None \<Rightarrow> []
               | Some g \<Rightarrow> (case spec_offering_of d e of None \<Rightarrow> []
                   | Some co \<Rightarrow> (if co_semester_id co = Some t
                       then (case spec_course_of d co of None \<Rightarrow> []
                             | Some c \<Rightarrow> (case c_credits c of None \<Rightarrow> [] | Some cr \<Rightarrow> [(cr, g)]))
                       else [])))
         else [])" for e
    by (simp add: E C gpa_pairs_def sql_eq_def split: option.splits)
  have "gpa_pairs (sgpa_from d s_id t) = concat (map (\<lambda>e. gpa_pairs (E e)) (enrollments d))"
    unfolding J by (simp add: gpa_pairs_concat comp_def)
  also have "\<dots> = spec_graded_credits d s_id (\<lambda>co. co_semester_id co = Some t)"
    unfolding each spec_graded_credits_def
    by (rule arg_cong[where f = concat], rule map_cong) (auto split: option.splits)
  finally show ?thesis .
qed

lemma cgpa_pairs:
  assumes pko: "pk_course_offerings d" and pkc: "pk_courses d" and pks: "pk_semesters d"
  shows "gpa_pairs (cgpa_from d s_id m) = spec_graded_credits d s_id (spec_cgpa_scope d m)"
proof -
  define C :: "enrollment_row \<Rightarrow> course_offering_row \<Rightarrow> semester_row
                 \<Rightarrow> (enrollment_row \<times> course_row) list"
    where "C = (\<lambda>e co s. concat (map (\<lambda>c. if co_course_id co = c_course_id c
               then (if e_student_id e = s_id \<and> e_status e = Completed \<and> e_grade_point e \<noteq> None
                        \<and> (m = None \<or> sql_le (sem_start_date s) m) then [(e, c)] else [])
               else []) (courses d)))"
  define S :: "enrollment_row \<Rightarrow> course_offering_row \<Rightarrow> (enrollment_row \<times> course_row) list"
    where "S = (\<lambda>e co. concat (map (\<lambda>s. if sql_eq (co_semester_id co) (Some (sem_semester_id s))
               then C e co s else []) (semesters d)))"
  define E :: "enrollment_row \<Rightarrow> (enrollment_row \<times> course_row) list"
    where "E = (\<lambda>e. concat (map (\<lambda>co. if e_offering_id e = co_offering_id co then S e co else [])
                  (course_offerings d)))"
  have J: "cgpa_from d s_id m = concat (map E (enrollments d))"
    unfolding cgpa_from_def E_def S_def C_def by simp
  have dc: "distinct (courses d)" and dof: "distinct (course_offerings d)"
    and ds: "distinct (semesters d)"
    using pkc pko pks
    by (simp_all add: pk_courses_def pk_course_offerings_def pk_semesters_def distinct_map)
  have C: "C e co s = (case spec_course_of d co of None \<Rightarrow> []
                     | Some c \<Rightarrow> (if e_student_id e = s_id \<and> e_status e = Completed
                          \<and> e_grade_point e \<noteq> None \<and> (m = None \<or> sql_le (sem_start_date s) m)
                        then [(e, c)] else []))" for e co s
    unfolding C_def spec_course_of_def
  proof (rule concat_map_if_find[OF dc])
    fix x y assume "x \<in> set (courses d)" "y \<in> set (courses d)"
      "co_course_id co = c_course_id x" "co_course_id co = c_course_id y"
    then show "x = y"
      using pkc unfolding pk_courses_def by (auto intro: distinct_map_key)
  qed
  have S: "S e co = (case spec_semester_of d co of None \<Rightarrow> [] | Some s \<Rightarrow> C e co s)" for e co
    unfolding S_def spec_semester_of_def
  proof (rule concat_map_if_find[OF ds])
    fix x y assume "x \<in> set (semesters d)" "y \<in> set (semesters d)"
      "sql_eq (co_semester_id co) (Some (sem_semester_id x))"
      "sql_eq (co_semester_id co) (Some (sem_semester_id y))"
    then show "x = y"
      using pks unfolding pk_semesters_def
      by (auto simp: sql_eq_def split: option.splits intro: distinct_map_key)
  qed
  have E: "E e = (case spec_offering_of d e of None \<Rightarrow> [] | Some co \<Rightarrow> S e co)" for e
    unfolding E_def spec_offering_of_def
  proof (rule concat_map_if_find[OF dof])
    fix x y assume "x \<in> set (course_offerings d)" "y \<in> set (course_offerings d)"
      "e_offering_id e = co_offering_id x" "e_offering_id e = co_offering_id y"
    then show "x = y"
      using pko unfolding pk_course_offerings_def by (auto intro: distinct_map_key)
  qed
  have each: "gpa_pairs (E e) =
        (if e_student_id e = s_id \<and> e_status e = Completed
         then (case e_grade_point e of None \<Rightarrow> []
               | Some g \<Rightarrow> (case spec_offering_of d e of None \<Rightarrow> []
                   | Some co \<Rightarrow> (if spec_cgpa_scope d m co
                       then (case spec_course_of d co of None \<Rightarrow> []
                             | Some c \<Rightarrow> (case c_credits c of None \<Rightarrow> [] | Some cr \<Rightarrow> [(cr, g)]))
                       else [])))
         else [])" for e
    by (simp add: E S C gpa_pairs_def spec_cgpa_scope_def split: option.splits)
  have "gpa_pairs (cgpa_from d s_id m) = concat (map (\<lambda>e. gpa_pairs (E e)) (enrollments d))"
    unfolding J by (simp add: gpa_pairs_concat comp_def)
  also have "\<dots> = spec_graded_credits d s_id (spec_cgpa_scope d m)"
    unfolding each spec_graded_credits_def
    by (rule arg_cong[where f = concat], rule map_cong) (auto split: option.splits)
  finally show ?thesis .
qed

section \<open>Claims on the attendance statistics\<close>

subsection \<open>The attendance percentage\<close>

lemma attendance_example_schema:
  "pk_students attendance_example \<and> pk_users attendance_example
   \<and> unique_enrollments attendance_example \<and> unique_attendance_records attendance_example
   \<and> fk_enrollments_student attendance_example \<and> fk_students_user attendance_example"
  by (simp add: attendance_example_def pk_students_def pk_users_def unique_enrollments_def
        unique_attendance_records_def fk_enrollments_student_def fk_students_user_def)

lemma attendance_example_stats:
  "get_course_attendance_stats attendance_example 7 =
     Inr [\<lparr>st_student_id = 1, st_full_name = ''Asha'', st_roll_number = ''R1'',
           st_total_classes = 10, st_attended_classes = 8, st_attendance_percentage = 80\<rparr>,
          \<lparr>st_student_id = 2, st_full_name = ''Ravi'', st_roll_number = ''R2'',
           st_total_classes = 10, st_attended_classes = 1, st_attendance_percentage = 10\<rparr>]"
  by code_simp

lemma attendance_example_total: "get_total_class_days attendance_example 7 = 10"
  by code_simp

text \<open>
  C1. In a store that satisfies the keys of students, users and enrollments and the
  references from enrollments to students and from students to users,
  TotalClassDays(offering) is the number of distinct dates having an attendance record
  of the offering; get_course_attendance_stats never fails; the percentage of each of
  its rows is present_count(student, offering) / TotalClassDays(offering) * 100 truncated
  to two decimals when TotalClassDays(offering) is positive, and exactly 0 when it is 0
  (80 with ten class days and eight present records); and every student with an enrolled
  enrollment in the offering has a row, carrying that percentage of the student.
\<close>

theorem attendance_percentage_formula:
  assumes pks: "pk_students d" and pku: "pk_users d" and ue: "unique_enrollments d"
    and fke: "fk_enrollments_student d" and fks: "fk_students_user d"
  shows "get_total_class_days d o_id
           = int (card (ar_date ` {ar \<in> set (attendance_records d). ar_offering_id ar = o_id}))
         \<and> (\<exists>rows. get_course_attendance_stats d o_id = Inr rows
              \<and> (\<forall>r \<in> set rows.
                    st_attendance_percentage r =
                      (if 0 < get_total_class_days d o_id
                       then TRUNC (of_int (spec_present_count d (st_student_id r) o_id)
                                     / of_int (get_total_class_days d o_id) * 100) 2
                       else 0)
                  \<and> (get_total_class_days d o_id = 10
                       \<and> spec_present_count d (st_student_id r) o_id = 8
                       \<longrightarrow> st_attendance_percentage r = 80))
              \<and> (\<forall>e \<in> set (enrollments d).
                    e_offering_id e = o_id \<and> e_status e = Enrolled \<longrightarrow>
                    (\<exists>r \<in> set rows.
                       st_student_id r = e_student_id e
                       \<and> st_attendance_percentage r =
                           (if 0 < get_total_class_days d o_id
                            then TRUNC (of_int (spec_present_count d (e_student_id e) o_id)
                                          / of_int (get_total_class_days d o_id) * 100) 2
                            else 0))))"
proof -
  let ?T = "get_total_class_days d o_id"
  let ?pct = "\<lambda>sid. if 0 < ?T then TRUNC (of_int (spec_present_count d sid o_id) / of_int ?T * 100) 2
                    else 0"
  have total: "?T = int (card (ar_date ` {ar \<in> set (attendance_records d). ar_offering_id ar = o_id}))"
    by (simp add: get_total_class_days_def length_remdups_card_conv)
  obtain rows where run: "get_course_attendance_stats d o_id = Inr rows"
    by (simp add: get_course_attendance_stats_rows)
  have each: "st_attendance_percentage r = ?pct (st_student_id r)"
    if r: "r \<in> set rows" for r
  proof -
    from stats_row_char[OF pks pku ue run r] obtain e s u where
      eo: "e_offering_id e = o_id"
      and rv: "r = stats_row_of ?T (e_student_id e, u_full_name u, s_roll_number s)
                     (map (\<lambda>a. (e, s, u, a)) (left_join_attendance d e))"
      by blast
    have sid: "st_student_id r = e_student_id e" by (simp add: rv stats_row_of_def)
    have cnt: "count_present (map (\<lambda>a. (e, s, u, a)) (left_join_attendance d e))
                 = spec_present_count d (st_student_id r) o_id"
      by (simp add: count_present_left_join sid eo)
    show ?thesis
      by (simp add: rv stats_row_of_def cnt[unfolded sid])
  qed
  have scen: "st_attendance_percentage r = 80"
    if r: "r \<in> set rows" and t: "?T = 10" and p: "spec_present_count d (st_student_id r) o_id = 8" for r
    using each[OF r] by (simp add: t p TRUNC_def)
  have rows_ok: "\<forall>r \<in> set rows.
           st_attendance_percentage r = ?pct (st_student_id r)
         \<and> (?T = 10 \<and> spec_present_count d (st_student_id r) o_id = 8
               \<longrightarrow> st_attendance_percentage r = 80)"
    using each scen by simp
  have produced: "\<forall>e \<in> set (enrollments d).
                    e_offering_id e = o_id \<and> e_status e = Enrolled \<longrightarrow>
                    (\<exists>r \<in> set rows. st_student_id r = e_student_id e
                       \<and> st_attendance_percentage r = ?pct (e_student_id e))"
  proof (intro ballI impI)
    fix e assume e: "e \<in> set (enrollments d)"
      and c: "e_offering_id e = o_id \<and> e_status e = Enrolled"
    from stats_row_exists[OF fke fks e _ _ run] c
    obtain r where r: "r \<in> set rows" and sid: "st_student_id r = e_student_id e"
      by blast
    have "st_attendance_percentage r = ?pct (e_student_id e)"
      using each[OF r] unfolding sid .
    with r sid show "\<exists>r \<in> set rows. st_student_id r = e_student_id e
                       \<and> st_attendance_percentage r = ?pct (e_student_id e)"
      by blast
  qed
  have "\<exists>rows. get_course_attendance_stats d o_id = Inr rows
           \<and> (\<forall>r \<in> set rows.
                 st_attendance_percentage r = ?pct (st_student_id r)
               \<and> (?T = 10 \<and> spec_present_count d (st_student_id r) o_id = 8
                     \<longrightarrow> st_attendance_percentage r = 80))
           \<and> (\<forall>e \<in> set (enrollments d).
                    e_offering_id e = o_id \<and> e_status e = Enrolled \<longrightarrow>
                    (\<exists>r \<in> set rows. st_student_id r = e_student_id e
                       \<and> st_attendance_percentage r = ?pct (e_student_id e)))"
    by (rule exI[of _ rows]) (intro conjI run rows_ok produced)
  with total show ?thesis by (rule conjI)
qed

theorem attendance_percentage_formula_witness:
  "pk_students attendance_example \<and> pk_users attendance_example
   \<and> unique_enrollments attendance_example
   \<and> fk_enrollments_student attendance_example \<and> fk_students_user attendance_example
   \<and> get_total_class_days attendance_example 7 = 10
   \<and> spec_present_count attendance_example 1 7 = 8
   \<and> (\<exists>rows. get_course_attendance_stats attendance_example 7 = Inr rows
          \<and> (\<exists>r \<in> set rows. st_student_id r = 1 \<and> st_attendance_percentage r = 80))"
proof -
  have h1: "pk_students attendance_example" and h2: "pk_users attendance_example"
    and h3: "unique_enrollments attendance_example"
    and h4: "fk_enrollments_student attendance_example"
    and h5: "fk_students_user attendance_example"
    using attendance_example_schema by simp_all
  have p: "spec_present_count attendance_example 1 7 = 8"
    by code_simp
  have e: "hd (enrollments attendance_example) \<in> set (enrollments attendance_example)"
    and ev: "e_offering_id (hd (enrollments attendance_example)) = 7
             \<and> e_status (hd (enrollments attendance_example)) = Enrolled"
    and es: "e_student_id (hd (enrollments attendance_example)) = 1"
    by (simp_all add: attendance_example_def)
  from attendance_percentage_formula[OF h1 h2 h3 h4 h5, of 7]
  obtain rows where run: "get_course_attendance_stats attendance_example 7 = Inr rows"
    and produced: "\<forall>e \<in> set (enrollments attendance_example).
                    e_offering_id e = 7 \<and> e_status e = Enrolled \<longrightarrow>
                    (\<exists>r \<in> set rows. st_student_id r = e_student_id e
                       \<and> st_attendance_percentage r =
                           (if 0 < get_total_class_days attendance_example 7
                            then TRUNC (of_int (spec_present_count attendance_example
                                                  (e_student_id e) 7)
                                          / of_int (get_total_class_days attendance_example 7)
                                          * 100) 2
                            else 0))"
    by blast
  from produced e ev obtain r where r: "r \<in> set rows"
    and sid: "st_student_id r = e_student_id (hd (enrollments attendance_example))"
    and pct: "st_attendance_percentage r =
                (if 0 < get_total_class_days attendance_example 7
                 then TRUNC (of_int (spec_present_count attendance_example
                               (e_student_id (hd (enrollments attendance_example))) 7)
                               / of_int (get_total_class_days attendance_example 7) * 100) 2
                 else 0)"
    by blast
  have v: "TRUNC (of_int 8 / of_int 10 * 100) 2 = 80"
    by (simp add: TRUNC_def)
  have pct80: "st_attendance_percentage r = 80"
    using pct unfolding es p attendance_example_total using v by simp
  have sid1: "st_student_id r = 1" using sid es by simp
  have "\<exists>r \<in> set rows. st_student_id r = 1 \<and> st_attendance_percentage r = 80"
    using r sid1 pct80 by blast
  with run have "\<exists>rows. get_course_attendance_stats attendance_example 7 = Inr rows
          \<and> (\<exists>r \<in> set rows. st_student_id r = 1 \<and> st_attendance_percentage r = 80)"
    by blast
  with h1 h2 h3 h4 h5 p attendance_example_total show ?thesis by simp
qed

subsection \<open>The roster of the statistics\<close>

text \<open>
  C2. In a store that satisfies the keys of students and users and the references from
  enrollments to students and from students to users, get_course_attendance_stats returns
  one row for each student who has an enrollment with status enrolled in the offering,
  no two rows for the same student and no row for anyone else, and every row carries
  the one total_classes value computed for the offering, get_total_class_days.
\<close>

theorem course_attendance_stats_roster:
  assumes pks: "pk_students d" and pku: "pk_users d"
    and fke: "fk_enrollments_student d" and fks: "fk_students_user d"
  shows "\<exists>rows. get_course_attendance_stats d o_id = Inr rows
           \<and> set (map st_student_id rows)
               = {e_student_id e | e. e \<in> set (enrollments d) \<and> e_offering_id e = o_id
                                      \<and> e_status e = Enrolled}
           \<and> distinct (map st_student_id rows)
           \<and> (\<forall>r \<in> set rows. st_total_classes r = get_total_class_days d o_id)"
proof -
  let ?T = "get_total_class_days d o_id"
  let ?J = "stats_from d o_id"
  let ?keys = "remdups (map stats_group_key ?J)"
  let ?rows = "map (\<lambda>k. stats_row_of ?T k (filter (\<lambda>r. stats_group_key r = k) ?J)) ?keys"
  have run: "get_course_attendance_stats d o_id = Inr ?rows"
    by (rule get_course_attendance_stats_rows)
  have ids: "map st_student_id ?rows = map fst ?keys"
    by (simp add: stats_row_of_def comp_def)
  have sub: "set (map fst ?keys) \<subseteq> {e_student_id e | e. e \<in> set (enrollments d)
                \<and> e_offering_id e = o_id \<and> e_status e = Enrolled}"
  proof
    fix x assume "x \<in> set (map fst ?keys)"
    then obtain j where j: "j \<in> set ?J" and x: "x = fst (stats_group_key j)" by auto
    obtain e s u a where jv: "j = (e, s, u, a)" by (cases j) auto
    have "e \<in> set (enrollments d) \<and> e_offering_id e = o_id \<and> e_status e = Enrolled
            \<and> x = e_student_id e"
      using j x jv by (simp add: in_stats_from stats_group_key_def)
    then show "x \<in> {e_student_id e | e. e \<in> set (enrollments d)
                \<and> e_offering_id e = o_id \<and> e_status e = Enrolled}"
      by blast
  qed
  have sup: "{e_student_id e | e. e \<in> set (enrollments d) \<and> e_offering_id e = o_id
                \<and> e_status e = Enrolled} \<subseteq> set (map fst ?keys)"
  proof
    fix x assume "x \<in> {e_student_id e | e. e \<in> set (enrollments d) \<and> e_offering_id e = o_id
                \<and> e_status e = Enrolled}"
    then obtain e where e: "e \<in> set (enrollments d)" and eo: "e_offering_id e = o_id"
      and en: "e_status e = Enrolled" and x: "x = e_student_id e" by blast
    from fke e obtain s where s: "s \<in> set (students d)" and es: "s_student_id s = e_student_id e"
      by (auto simp: fk_enrollments_student_def)
    from fks s obtain u where u: "u \<in> set (users d)" and su: "u_user_id u = s_student_id s"
      by (auto simp: fk_students_user_def)
    obtain a where a: "a \<in> set (left_join_attendance d e)"
      using left_join_attendance_nonempty[of d e] by (cases "left_join_attendance d e") auto
    have "(e, s, u, a) \<in> set ?J"
      using e s u es su a eo en by (simp add: in_stats_from)
    then have "stats_group_key (e, s, u, a) \<in> set ?keys" by force
    then have "fst (stats_group_key (e, s, u, a)) \<in> set (map fst ?keys)" 
      by (metis image_eqI set_map)
    then show "x \<in> set (map fst ?keys)"
      using x es by (simp add: stats_group_key_def)
  qed
  have inj: "inj_on fst (set ?keys)"
  proof (rule inj_onI)
    fix k k' assume k: "k \<in> set ?keys" and k': "k' \<in> set ?keys" and eq: "fst k = fst k'"
    from k obtain e s u a where m: "(e, s, u, a) \<in> set ?J" and kv: "k = stats_group_key (e, s, u, a)"
      by auto
    from k' obtain e' s' u' a' where m': "(e', s', u', a') \<in> set ?J"
      and kv': "k' = stats_group_key (e', s', u', a')"
      by auto
    have sid: "s_student_id s = s_student_id s'"
      using eq kv kv' by (simp add: stats_group_key_def)
    have sm: "s \<in> set (students d)" "s' \<in> set (students d)"
      using m m' by (simp_all add: in_stats_from)
    have um: "u \<in> set (users d)" "u' \<in> set (users d)" "u_user_id u = u_user_id u'"
      using m m' sid by (simp_all add: in_stats_from)
    have "s = s'"
      using pks sm sid unfolding pk_students_def by (rule distinct_map_key)
    moreover have "u = u'"
      using pku um unfolding pk_users_def by (rule distinct_map_key)
    ultimately show "k = k'" using kv kv' by (simp add: stats_group_key_def)
  qed
  have dist: "distinct (map fst ?keys)"
    using inj by (simp add: distinct_map)
  have tot: "\<forall>r \<in> set ?rows. st_total_classes r = ?T"
    by (auto simp: stats_row_of_def)
  have seteq: "set (map st_student_id ?rows)
                 = {e_student_id e | e. e \<in> set (enrollments d) \<and> e_offering_id e = o_id
                                        \<and> e_status e = Enrolled}"
    unfolding ids using sub sup by (rule subset_antisym)
  have dist': "distinct (map st_student_id ?rows)"
    unfolding ids by (rule dist)
  show ?thesis
    by (rule exI[of _ ?rows]) (intro conjI run seteq dist' tot)
qed

theorem course_attendance_stats_roster_witness:
  "pk_students attendance_example \<and> pk_users attendance_example
   \<and> fk_enrollments_student attendance_example \<and> fk_students_user attendance_example
   \<and> (\<exists>rows. get_course_attendance_stats attendance_example 7 = Inr rows
          \<and> map st_student_id rows = [1, 2]
          \<and> {e_student_id e | e. e \<in> set (enrollments attendance_example) \<and> e_offering_id e = 7
                \<and> e_status e = Enrolled} = {1, 2})"
proof -
  have h1: "pk_students attendance_example" and h2: "pk_users attendance_example"
    and h3: "fk_enrollments_student attendance_example"
    and h4: "fk_students_user attendance_example"
    using attendance_example_schema by simp_all
  from course_attendance_stats_roster[OF h1 h2 h3 h4, of 7]
  obtain rows where run: "get_course_attendance_stats attendance_example 7 = Inr rows"
    and ids: "set (map st_student_id rows)
                = {e_student_id e | e. e \<in> set (enrollments attendance_example) \<and> e_offering_id e = 7
                     \<and> e_status e = Enrolled}"
    by blast
  have rows: "map st_student_id rows = [1, 2]"
    using run unfolding attendance_example_stats by auto
  have seteq: "{e_student_id e | e. e \<in> set (enrollments attendance_example) \<and> e_offering_id e = 7
           \<and> e_status e = Enrolled} = {1, 2}"
    using ids unfolding rows by auto
  have "\<exists>rows. get_course_attendance_stats attendance_example 7 = Inr rows
          \<and> map st_student_id rows = [1, 2]
          \<and> {e_student_id e | e. e \<in> set (enrollments attendance_example) \<and> e_offering_id e = 7
                \<and> e_status e = Enrolled} = {1, 2}"
    by (rule exI[of _ rows]) (simp only: run rows seteq simp_thms)
  with h1 h2 h3 h4 show ?thesis by simp
qed

subsection \<open>Bounds of the statistics\<close>

text \<open>
  C9. In a store with at most one attendance record per (offering, student, date), and
  satisfying the keys of students, users and enrollments, every row returned by
  get_course_attendance_stats has attended_classes between 0 and total_classes, and an
  attendance_percentage between 0 and 100.
\<close>

theorem course_attendance_stats_bounded:
  assumes pks: "pk_students d" and pku: "pk_users d" and ue: "unique_enrollments d"
    and ua: "unique_attendance_records d"
  shows "\<exists>rows. get_course_attendance_stats d o_id = Inr rows
           \<and> (\<forall>r \<in> set rows. 0 \<le> st_attended_classes r
                \<and> st_attended_classes r \<le> st_total_classes r
                \<and> 0 \<le> st_attendance_percentage r \<and> st_attendance_percentage r \<le> 100)"
proof -
  let ?T = "get_total_class_days d o_id"
  obtain rows where run: "get_course_attendance_stats d o_id = Inr rows"
    by (simp add: get_course_attendance_stats_rows)
  have each: "0 \<le> st_attended_classes r \<and> st_attended_classes r \<le> st_total_classes r
                \<and> 0 \<le> st_attendance_percentage r \<and> st_attendance_percentage r \<le> 100"
    if r: "r \<in> set rows" for r
  proof -
    from stats_row_char[OF pks pku ue run r] obtain e s u where
      eo: "e_offering_id e = o_id"
      and rv: "r = stats_row_of ?T (e_student_id e, u_full_name u, s_roll_number s)
                     (map (\<lambda>a. (e, s, u, a)) (left_join_attendance d e))"
      by blast
    let ?a = "spec_present_count d (e_student_id e) o_id"
    have att: "st_attended_classes r = ?a"
      using count_present_left_join[of e s u d] by (simp add: rv stats_row_of_def eo)
    have tot: "st_total_classes r = ?T" by (simp add: rv stats_row_of_def)
    have pct: "st_attendance_percentage r
                 = (if 0 < ?T then TRUNC (of_int ?a * 100 / of_int ?T) 2 else 0)"
      using count_present_left_join[of e s u d] by (simp add: rv stats_row_of_def eo)
    have a0: "0 \<le> ?a" by (simp add: spec_present_count_def)
    have aT: "?a \<le> ?T" by (rule present_le_total[OF ua])
    have pb: "0 \<le> st_attendance_percentage r \<and> st_attendance_percentage r \<le> 100"
    proof (cases "0 < ?T")
      case True
      have q0: "(0::rat) \<le> of_int ?a * 100 / of_int ?T"
        using a0 True by simp
      have "(of_int ?a :: rat) \<le> of_int ?T" using aT by simp
      then have q1: "(of_int ?a :: rat) * 100 / of_int ?T \<le> 100"
        using True by (simp add: divide_le_eq)
      show ?thesis using TRUNC_bounds[OF q0 q1] True by (simp add: pct)
    next
      case False
      then show ?thesis by (simp add: pct)
    qed
    show ?thesis using att tot a0 aT pb by simp
  qed
  show ?thesis
    by (rule exI[of _ rows]) (use run each in simp)
qed

theorem course_attendance_stats_bounded_witness:
  "pk_students attendance_example \<and> pk_users attendance_example
   \<and> unique_enrollments attendance_example \<and> unique_attendance_records attendance_example
   \<and> (\<exists>rows. get_course_attendance_stats attendance_example 7 = Inr rows
          \<and> length rows = 2
          \<and> (\<forall>r \<in> set rows. st_attended_classes r \<le> st_total_classes r
                \<and> 0 \<le> st_attendance_percentage r \<and> st_attendance_percentage r \<le> 100))"
proof -
  have h1: "pk_students attendance_example" and h2: "pk_users attendance_example"
    and h3: "unique_enrollments attendance_example"
    and h4: "unique_attendance_records attendance_example"
    using attendance_example_schema by simp_all
  from course_attendance_stats_bounded[OF h1 h2 h3 h4, of 7]
  obtain rows where run: "get_course_attendance_stats attendance_example 7 = Inr rows"
    and each: "\<forall>r \<in> set rows. 0 \<le> st_attended_classes r
                \<and> st_attended_classes r \<le> st_total_classes r
                \<and> 0 \<le> st_attendance_percentage r \<and> st_attendance_percentage r \<le> 100"
    by blast
  have len: "length rows = 2"
    using run unfolding attendance_example_stats by auto
  from each have b: "\<forall>r \<in> set rows. st_attended_classes r \<le> st_total_classes r
                \<and> 0 \<le> st_attendance_percentage r \<and> st_attendance_percentage r \<le> 100"
    by blast
  have "\<exists>rows. get_course_attendance_stats attendance_example 7 = Inr rows
          \<and> length rows = 2
          \<and> (\<forall>r \<in> set rows. st_attended_classes r \<le> st_total_classes r
                \<and> 0 \<le> st_attendance_percentage r \<and> st_attendance_percentage r \<le> 100)"
    by (rule exI[of _ rows]) (intro conjI run len b)
  with h1 h2 h3 h4 show ?thesis by simp
qed

section \<open>Claims on the grade point averages\<close>

lemma gpa_example_schema:
  "pk_course_offerings gpa_example \<and> pk_courses gpa_example \<and> pk_semesters gpa_example
   \<and> courses_check gpa_example \<and> enrollments_grade_point_type gpa_example"
  by (simp add: gpa_example_def pk_course_offerings_def pk_courses_def pk_semesters_def
        courses_check_def courses_credits_check_def enrollments_grade_point_type_def
        decimal_4_2_def)

text \<open>
  C3, as amended. In a store that satisfies the keys of course offerings, courses and
  semesters, the CHECK on credits and the type of grade_point, SGPA(student, semester) is
  the credit-weighted average, the sum of credits times grade point over the sum of
  credits, as the database's numeric division returns the quotient (rounded at the scale
  it selects, within 5 units of the seventeenth decimal place of the exact average),
  taken over the student's completed enrollments that carry a grade point and whose
  offering belongs to that semester; CGPA(student, as-of-date) is the same average over
  the student's completed enrollments that carry a grade point and whose offering is
  attached to a semester, the semester starting on or before the as-of-date when one is
  given; a course without credits adds nothing to either sum, and the average of no
  enrollment at all is 0.
\<close>

theorem gpa_over_graded_completed:
  assumes pko: "pk_course_offerings d" and pkc: "pk_courses d" and pks: "pk_semesters d"
    and chk: "courses_check d" and gpt: "enrollments_grade_point_type d"
  shows "get_student_sgpa d s_id sem =
           Inr (numeric_credit_weighted_average
                  (spec_graded_credits d s_id (\<lambda>co. co_semester_id co = Some sem)))
       \<and> \<bar>numeric_credit_weighted_average
              (spec_graded_credits d s_id (\<lambda>co. co_semester_id co = Some sem))
            - credit_weighted_average
                (spec_graded_credits d s_id (\<lambda>co. co_semester_id co = Some sem))\<bar>
           \<le> 1 / (2 * 10 ^ 16)
       \<and> get_student_cgpa d s_id max_sem_date =
           Inr (numeric_credit_weighted_average
                  (spec_graded_credits d s_id (spec_cgpa_scope d max_sem_date)))
       \<and> \<bar>numeric_credit_weighted_average
              (spec_graded_credits d s_id (spec_cgpa_scope d max_sem_date))
            - credit_weighted_average
                (spec_graded_credits d s_id (spec_cgpa_scope d max_sem_date))\<bar>
           \<le> 1 / (2 * 10 ^ 16)
       \<and> numeric_credit_weighted_average [] = 0
       \<and> credit_weighted_average [] = 0"
proof (intro conjI)
  have sg: "\<forall>(e, c) \<in> set (sgpa_from d s_id sem). e_grade_point e \<noteq> None"
    using in_sgpa_from by blast
  have sc: "\<forall>(e, c) \<in> set (sgpa_from d s_id sem). courses_credits_check c"
    using in_sgpa_from chk unfolding courses_check_def by blast
  show "get_student_sgpa d s_id sem =
           Inr (numeric_credit_weighted_average
                  (spec_graded_credits d s_id (\<lambda>co. co_semester_id co = Some sem)))"
    unfolding get_student_sgpa_def gpa_select_value[OF sg sc] sgpa_pairs[OF pko pkc] ..
  have cg: "\<forall>(e, c) \<in> set (cgpa_from d s_id max_sem_date). e_grade_point e \<noteq> None"
    using in_cgpa_from by blast
  have cc: "\<forall>(e, c) \<in> set (cgpa_from d s_id max_sem_date). courses_credits_check c"
    using in_cgpa_from chk unfolding courses_check_def by blast
  show "get_student_cgpa d s_id max_sem_date =
           Inr (numeric_credit_weighted_average
                  (spec_graded_credits d s_id (spec_cgpa_scope d max_sem_date)))"
    unfolding get_student_cgpa_def gpa_select_value[OF cg cc] cgpa_pairs[OF pko pkc pks] ..
  have ok: "\<forall>(cr, g) \<in> set (spec_graded_credits d s_id in_scope). 0 < cr \<and> \<bar>g\<bar> < 100"
    for in_scope
    using in_spec_graded_credits[OF chk gpt] by blast
  show "\<bar>numeric_credit_weighted_average
              (spec_graded_credits d s_id (\<lambda>co. co_semester_id co = Some sem))
            - credit_weighted_average
                (spec_graded_credits d s_id (\<lambda>co. co_semester_id co = Some sem))\<bar>
           \<le> 1 / (2 * 10 ^ 16)"
    using ok by (rule numeric_average_close)
  show "\<bar>numeric_credit_weighted_average
              (spec_graded_credits d s_id (spec_cgpa_scope d max_sem_date))
            - credit_weighted_average
                (spec_graded_credits d s_id (spec_cgpa_scope d max_sem_date))\<bar>
           \<le> 1 / (2 * 10 ^ 16)"
    using ok by (rule numeric_average_close)
  show "numeric_credit_weighted_average [] = 0"
    by (simp add: numeric_credit_weighted_average_def)
  show "credit_weighted_average [] = 0"
    by (simp add: credit_weighted_average_def)
qed

theorem gpa_over_graded_completed_witness:
  "pk_course_offerings gpa_example \<and> pk_courses gpa_example \<and> pk_semesters gpa_example
   \<and> courses_check gpa_example \<and> enrollments_grade_point_type gpa_example
   \<and> get_student_sgpa gpa_example 3 50 = Inr (83333333333333333 / 10000000000000000)
   \<and> credit_weighted_average
        (spec_graded_credits gpa_example 3 (\<lambda>co. co_semester_id co = Some 50)) = 25 / 3
   \<and> get_student_sgpa gpa_example 1 50 = Inr 8
   \<and> get_student_cgpa gpa_example 2 None = Inr 8
   \<and> get_student_cgpa gpa_example 2 (Some 99) = Inr 0"
proof -
  have h: "pk_course_offerings gpa_example" "pk_courses gpa_example" "pk_semesters gpa_example"
    "courses_check gpa_example" "enrollments_grade_point_type gpa_example"
    using gpa_example_schema by simp_all
  have p0: "spec_graded_credits gpa_example 3 (\<lambda>co. co_semester_id co = Some 50)
              = [(4, 8), (2, 9)]"
    by code_simp
  have p1: "spec_graded_credits gpa_example 1 (\<lambda>co. co_semester_id co = Some 50) = [(4, 8)]"
    by code_simp
  have p2: "spec_graded_credits gpa_example 2 (spec_cgpa_scope gpa_example None) = [(4, 8)]"
    by code_simp
  have p3: "spec_graded_credits gpa_example 2 (spec_cgpa_scope gpa_example (Some 99)) = []"
    by code_simp
  have a0: "numeric_credit_weighted_average [(4, 8), (2, 9)]
              = 83333333333333333 / 10000000000000000"
    by code_simp
  have e0: "credit_weighted_average [(4, 8), (2, 9)] = 25 / 3"
    by code_simp
  have a: "numeric_credit_weighted_average [(4, 8)] = 8"
    by code_simp
  note t = gpa_over_graded_completed[OF h]
  have r0: "get_student_sgpa gpa_example 3 50 = Inr (83333333333333333 / 10000000000000000)"
    using t[of 3 50 None, THEN conjunct1] unfolding p0 a0 .
  have x0: "credit_weighted_average
              (spec_graded_credits gpa_example 3 (\<lambda>co. co_semester_id co = Some 50)) = 25 / 3"
    unfolding p0 by (rule e0)
  have r1: "get_student_sgpa gpa_example 1 50 = Inr 8"
    using t[of 1 50 None, THEN conjunct1] unfolding p1 a .
  have r2: "get_student_cgpa gpa_example 2 None = Inr 8"
    using t[of 2 50 None, THEN conjunct2, THEN conjunct2, THEN conjunct1] unfolding p2 a .
  have z: "numeric_credit_weighted_average [] = 0"
    by (simp add: numeric_credit_weighted_average_def)
  have r3: "get_student_cgpa gpa_example 2 (Some 99) = Inr 0"
    using t[of 2 50 "Some 99", THEN conjunct2, THEN conjunct2, THEN conjunct1] unfolding p3 z .
  from h r0 x0 r1 r2 r3 show ?thesis by simp
qed

text \<open>
  C3 as stated fails. Student 1 has a completed enrollment without grade point in
  semester 50: the function averages over the graded one alone and returns 8, where the
  average over all completed enrollments of the semester is 4. Student 2 has a completed,
  graded enrollment in an offering without semester: the cumulative average without
  cutoff leaves it out and returns 8, where the average over all completed enrollments
  is 22/3.
\<close>

theorem gpa_all_completed_counterexample:
  "get_student_sgpa gpa_example 1 50 = Inr 8 \<and> claimed_sgpa gpa_example 1 50 = 4
   \<and> get_student_cgpa gpa_example 2 None = Inr 8 \<and> claimed_cgpa gpa_example 2 None = 22 / 3"
  by code_simp

section \<open>Claims on the available offerings\<close>

lemma available_example_rows:
  "map (co_offering_id \<circ> fst) (get_available_offerings_for_student available_example 100 1) = [1, 2]"
  by code_simp

text \<open>
  C4. For a student of the store (student ids being a key), AvailableOfferings returns
  the empty list when no semester is active with the registration window strictly around
  now; and when there is such a semester, one of them is chosen so that every returned
  offering is an offering of the store with its course, belongs to that semester, has a
  course of the student's stream or of COMMON, has the student's current semester as
  logical semester or none, and is not the offering of any enrollment of the student.
\<close>

theorem available_offerings_filter:
  assumes pk: "pk_students d" and st: "st \<in> set (students d)" and sid: "s_student_id st = s_id"
  shows "((\<forall>m \<in> set (semesters d). \<not> registration_open now m) \<longrightarrow>
            get_available_offerings_for_student d now s_id = [])
       \<and> ((\<exists>m \<in> set (semesters d). registration_open now m) \<longrightarrow>
            (\<exists>m \<in> set (semesters d). registration_open now m
               \<and> (\<forall>(co, c) \<in> set (get_available_offerings_for_student d now s_id).
                     co \<in> set (course_offerings d) \<and> c \<in> set (courses d)
                     \<and> c_course_id c = co_course_id co
                     \<and> co_semester_id co = Some (sem_semester_id m)
                     \<and> (c_stream c = s_stream st \<or> c_stream c = COMMON)
                     \<and> (c_logical_semester c = s_current_semester st \<or> c_logical_semester c = None)
                     \<and> \<not> (\<exists>e \<in> set (enrollments d).
                             e_student_id e = s_id \<and> e_offering_id e = co_offering_id co))))"
proof (intro conjI impI)
  assume none: "\<forall>m \<in> set (semesters d). \<not> registration_open now m"
  then have "find (registration_open now) (semesters d) = None"
    by (simp add: find_None_iff)
  then show "get_available_offerings_for_student d now s_id = []"
    by (simp add: get_available_offerings_for_student_def)
next
  assume "\<exists>m \<in> set (semesters d). registration_open now m"
  then obtain m where fm: "find (registration_open now) (semesters d) = Some m"
    by (cases "find (registration_open now) (semesters d)") (auto simp: find_None_iff)
  then have m: "m \<in> set (semesters d)" and op: "registration_open now m"
    by (auto simp: find_Some_iff)
  have fs: "find (\<lambda>s. s_student_id s = s_id) (students d) = Some st"
    using find_unique[of s_student_id "students d" st] pk st sid by (simp add: pk_students_def)
  have rows: "\<forall>(co, c) \<in> set (get_available_offerings_for_student d now s_id).
                     co \<in> set (course_offerings d) \<and> c \<in> set (courses d)
                     \<and> c_course_id c = co_course_id co
                     \<and> co_semester_id co = Some (sem_semester_id m)
                     \<and> (c_stream c = s_stream st \<or> c_stream c = COMMON)
                     \<and> (c_logical_semester c = s_current_semester st \<or> c_logical_semester c = None)
                     \<and> \<not> (\<exists>e \<in> set (enrollments d).
                             e_student_id e = s_id \<and> e_offering_id e = co_offering_id co)"
    by (auto simp: get_available_offerings_for_student_def Let_def fm fs sql_eq_def split: option.splits)
  show "\<exists>m \<in> set (semesters d). registration_open now m
               \<and> (\<forall>(co, c) \<in> set (get_available_offerings_for_student d now s_id).
                     co \<in> set (course_offerings d) \<and> c \<in> set (courses d)
                     \<and> c_course_id c = co_course_id co
                     \<and> co_semester_id co = Some (sem_semester_id m)
                     \<and> (c_stream c = s_stream st \<or> c_stream c = COMMON)
                     \<and> (c_logical_semester c = s_current_semester st \<or> c_logical_semester c = None)
                     \<and> \<not> (\<exists>e \<in> set (enrollments d).
                             e_student_id e = s_id \<and> e_offering_id e = co_offering_id co))"
    by (rule bexI[of _ m]) (intro conjI op rows, rule m)
qed

theorem available_offerings_filter_witness:
  "pk_students available_example
   \<and> hd (students available_example) \<in> set (students available_example)
   \<and> s_student_id (hd (students available_example)) = 1
   \<and> get_available_offerings_for_student available_example 300 1 = []
   \<and> (\<exists>m \<in> set (semesters available_example). registration_open 100 m
         \<and> (\<forall>(co, c) \<in> set (get_available_offerings_for_student available_example 100 1).
               co_semester_id co = Some (sem_semester_id m) \<and> c_stream c \<noteq> EE))"
proof -
  have h1: "pk_students available_example"
    by (simp add: pk_students_def available_example_def)
  have h2: "hd (students available_example) \<in> set (students available_example)"
    by (simp add: available_example_def)
  have h3: "s_student_id (hd (students available_example)) = 1"
    by (simp add: available_example_def)
  have str: "s_stream (hd (students available_example)) = CSE"
    by (simp add: available_example_def)
  note t = available_offerings_filter[OF h1 h2 h3]
  have closed: "\<forall>m \<in> set (semesters available_example). \<not> registration_open 300 m"
    by (simp add: available_example_def registration_open_def)
  have r1: "get_available_offerings_for_student available_example 300 1 = []"
    using t[of 300] closed by blast
  have "\<exists>m \<in> set (semesters available_example). registration_open 100 m"
    by (simp add: available_example_def registration_open_def)
  with t[of 100] obtain m where m: "m \<in> set (semesters available_example)"
    and op: "registration_open 100 m"
    and rows: "\<forall>(co, c) \<in> set (get_available_offerings_for_student available_example 100 1).
                     co \<in> set (course_offerings available_example)
                     \<and> c \<in> set (courses available_example)
                     \<and> c_course_id c = co_course_id co
                     \<and> co_semester_id co = Some (sem_semester_id m)
                     \<and> (c_stream c = s_stream (hd (students available_example)) \<or> c_stream c = COMMON)
                     \<and> (c_logical_semester c = s_current_semester (hd (students available_example))
                          \<or> c_logical_semester c = None)
                     \<and> \<not> (\<exists>e \<in> set (enrollments available_example).
                             e_student_id e = 1 \<and> e_offering_id e = co_offering_id co)"
    by blast
  have rows': "\<forall>(co, c) \<in> set (get_available_offerings_for_student available_example 100 1).
               co_semester_id co = Some (sem_semester_id m) \<and> c_stream c \<noteq> EE"
    using rows unfolding str by fastforce
  have "\<exists>m \<in> set (semesters available_example). registration_open 100 m
         \<and> (\<forall>(co, c) \<in> set (get_available_offerings_for_student available_example 100 1).
               co_semester_id co = Some (sem_semester_id m) \<and> c_stream c \<noteq> EE)"
    by (rule bexI[of _ m]) (intro conjI op rows', rule m)
  with h1 h2 h3 r1 show ?thesis by simp
qed

text \<open>
  C10. Whatever its status (enrolled, completed or dropped), an enrollment of the student
  keeps its offering out of AvailableOfferings(student): no returned row is the offering
  of any enrollment row of the student.
\<close>

theorem available_offerings_exclude_any_enrollment:
  assumes e: "e \<in> set (enrollments d)" and sid: "e_student_id e = s_id"
  shows "e_offering_id e \<notin> set (map (co_offering_id \<circ> fst)
                                   (get_available_offerings_for_student d now s_id))"
  using e sid by (auto simp: get_available_offerings_for_student_def Let_def)

theorem available_offerings_exclude_any_enrollment_witness:
  "hd (enrollments available_example) \<in> set (enrollments available_example)
   \<and> e_student_id (hd (enrollments available_example)) = 1
   \<and> e_status (hd (enrollments available_example)) = Dropped
   \<and> e_offering_id (hd (enrollments available_example)) = 5
   \<and> 5 \<notin> set (map (co_offering_id \<circ> fst)
                  (get_available_offerings_for_student available_example 100 1))"
proof -
  have h1: "hd (enrollments available_example) \<in> set (enrollments available_example)"
    by (simp add: available_example_def)
  have h2: "e_student_id (hd (enrollments available_example)) = 1"
    by (simp add: available_example_def)
  have st: "e_status (hd (enrollments available_example)) = Dropped"
    by (simp add: available_example_def)
  have off: "e_offering_id (hd (enrollments available_example)) = 5"
    by (simp add: available_example_def)
  have "5 \<notin> set (map (co_offering_id \<circ> fst)
                  (get_available_offerings_for_student available_example 100 1))"
    using available_offerings_exclude_any_enrollment[OF h1 h2, of 100] unfolding off .
  with h1 h2 st off show ?thesis by simp
qed

section \<open>Claims on advancing the semesters\<close>

lemma set_next_semester_check:
  assumes "students_current_semester_check s" and "semester_below_8 s"
  shows "students_current_semester_check (set_next_semester s)"
  using assms
  by (cases "s_current_semester s")
     (simp_all add: students_current_semester_check_def semester_below_8_def set_next_semester_def)

lemma updated_rows_pass_check:
  assumes "\<forall>s \<in> set ss. students_current_semester_check s"
  shows "list_all students_current_semester_check (map set_next_semester (filter semester_below_8 ss))"
  using assms by (induction ss) (simp_all add: set_next_semester_check)

text \<open>
  C5. On every store whose students satisfy the schema's CHECK on current_semester
  (between 1 and 8 when present), AdvanceAllSemesters succeeds, keeps the table's rows in
  place and touches no other table; a student below 8 moves up by exactly one and keeps
  every other column, a student at 8 is unchanged, and afterwards every student still
  satisfies the CHECK, so no current_semester exceeds 8 or falls below 1.
\<close>

theorem increment_all_student_semesters_bounded:
  assumes chk: "students_check d"
  shows "\<exists>d'. increment_all_student_semesters d = Inr d'
           \<and> d' = d\<lparr>students := students d'\<rparr>
           \<and> length (students d') = length (students d)
           \<and> (\<forall>i < length (students d).
                (\<forall>n. s_current_semester (students d ! i) = Some n \<and> n < 8 \<longrightarrow>
                     students d' ! i = (students d ! i)\<lparr>s_current_semester := Some (n + 1)\<rparr>)
              \<and> (s_current_semester (students d ! i) = Some 8 \<longrightarrow>
                     students d' ! i = students d ! i)
              \<and> (\<forall>m. s_current_semester (students d' ! i) = Some m \<longrightarrow> 1 \<le> m \<and> m \<le> 8))"
proof -
  have inv: "\<forall>s \<in> set (students d). students_current_semester_check s"
    using chk by (simp add: students_check_def)
  let ?step = "\<lambda>s. if semester_below_8 s then set_next_semester s else s"
  let ?d' = "d\<lparr>students := map ?step (students d)\<rparr>"
  have run: "increment_all_student_semesters d = Inr ?d'"
    using updated_rows_pass_check[OF inv] by (simp add: increment_all_student_semesters_def)
  have rows: "\<forall>i < length (students d).
                (\<forall>n. s_current_semester (students d ! i) = Some n \<and> n < 8 \<longrightarrow>
                     students ?d' ! i = (students d ! i)\<lparr>s_current_semester := Some (n + 1)\<rparr>)
              \<and> (s_current_semester (students d ! i) = Some 8 \<longrightarrow>
                     students ?d' ! i = students d ! i)
              \<and> (\<forall>m. s_current_semester (students ?d' ! i) = Some m \<longrightarrow> 1 \<le> m \<and> m \<le> 8)"
  proof (intro allI impI)
    fix i assume i: "i < length (students d)"
    let ?s = "students d ! i"
    have mem: "?s \<in> set (students d)" using i by simp
    have chk: "students_current_semester_check ?s" using inv mem by blast
    have at: "students ?d' ! i = ?step ?s" using i by simp
    have up: "\<forall>n. s_current_semester ?s = Some n \<and> n < 8 \<longrightarrow>
                students ?d' ! i = ?s\<lparr>s_current_semester := Some (n + 1)\<rparr>"
      unfolding at by (simp add: semester_below_8_def set_next_semester_def)
    have keep: "s_current_semester ?s = Some 8 \<longrightarrow> students ?d' ! i = ?s"
      unfolding at by (simp add: semester_below_8_def)
    have "students_current_semester_check (?step ?s)"
      using chk by (simp add: set_next_semester_check)
    then have bound: "\<forall>m. s_current_semester (students ?d' ! i) = Some m \<longrightarrow> 1 \<le> m \<and> m \<le> 8"
      unfolding at by (auto simp: students_current_semester_check_def split: option.splits)
    show "(\<forall>n. s_current_semester ?s = Some n \<and> n < 8 \<longrightarrow>
                students ?d' ! i = ?s\<lparr>s_current_semester := Some (n + 1)\<rparr>)
          \<and> (s_current_semester ?s = Some 8 \<longrightarrow> students ?d' ! i = ?s)
          \<and> (\<forall>m. s_current_semester (students ?d' ! i) = Some m \<longrightarrow> 1 \<le> m \<and> m \<le> 8)"
      using up keep bound by blast
  qed
  have frame: "?d' = d\<lparr>students := students ?d'\<rparr>" by simp
  have len: "length (students ?d') = length (students d)" by simp
  show ?thesis
    using run frame len rows by blast
qed

theorem increment_all_student_semesters_bounded_witness:
  "students_check advance_example
   \<and> (\<exists>d'. increment_all_student_semesters advance_example = Inr d'
          \<and> map s_current_semester (students d') = [Some 4, Some 8, None])"
proof -
  have h: "students_check advance_example"
    by (simp add: students_check_def advance_example_def students_current_semester_check_def)
  from increment_all_student_semesters_bounded[OF h]
  obtain d' where run: "increment_all_student_semesters advance_example = Inr d'"
    by blast
  have "increment_all_student_semesters advance_example
          = Inr (advance_example\<lparr>students :=
                map (\<lambda>s. if semester_below_8 s then set_next_semester s else s)
                    (students advance_example)\<rparr>)"
    using run by (simp add: increment_all_student_semesters_def Let_def split: if_splits)
  then have "\<exists>d'. increment_all_student_semesters advance_example = Inr d'
          \<and> map s_current_semester (students d') = [Some 4, Some 8, None]"
    by (simp add: advance_example_def semester_below_8_def set_next_semester_def)
  with h show ?thesis by blast
qed

section \<open>Claims on reading attendance records\<close>



section \<open>Claims on starting a registration period twice\<close>






section \<open>Claims on the teacher's offerings\<close>

lemma teacher_example_schema:
  "pk_courses teacher_example \<and> pk_semesters teacher_example \<and> pk_course_offerings teacher_example
   \<and> fk_offerings_course teacher_example \<and> fk_offerings_semester teacher_example"
  by (simp add: teacher_example_def pk_courses_def pk_semesters_def pk_course_offerings_def
        fk_offerings_course_def fk_offerings_semester_def)

lemma teacher_example_rows:
  "map to_offering_id (get_teacher_offerings_with_status teacher_example 5) = [4, 2, 1]"
  by code_simp

lemma teacher_example_completed:
  "map to_is_completed (get_teacher_offerings_with_status teacher_example 5) = [False, False, True]"
  by code_simp

text \<open>
  C8, as amended. In a store that satisfies the keys of courses, semesters and course
  offerings and the references from offerings to courses and semesters,
  TeacherOfferingsWithStatus(teacher) returns, once each, the offerings of the teacher
  that are attached to a semester (the inner join leaves out an offering whose semester
  reference is null); every returned row is an offering of that teacher and has
  is_completed true exactly when some enrollment in the offering has status completed;
  and the rows are ordered by the start date of their semester, descending, the rows
  whose semester has no start date first.
\<close>

theorem teacher_offerings_with_status_amended:
  assumes pkc: "pk_courses d" and pks: "pk_semesters d" and pko: "pk_course_offerings d"
    and fkc: "fk_offerings_course d" and fks: "fk_offerings_semester d"
  shows "set (map to_offering_id (get_teacher_offerings_with_status d t_id))
           = {co_offering_id co | co. co \<in> set (course_offerings d) \<and> co_teacher_id co = t_id
                                     \<and> co_semester_id co \<noteq> None}
       \<and> distinct (map to_offering_id (get_teacher_offerings_with_status d t_id))
       \<and> (\<forall>r \<in> set (get_teacher_offerings_with_status d t_id).
             to_teacher_id r = t_id
             \<and> (to_is_completed r \<longleftrightarrow>
                  (\<exists>e \<in> set (enrollments d).
                     e_offering_id e = to_offering_id r \<and> e_status e = Completed)))
       \<and> sorted_wrt (\<lambda>a b. date_desc (spec_start_date d a) (spec_start_date d b))
            (get_teacher_offerings_with_status d t_id)"
proof -
  let ?J = "teacher_from d t_id"
  let ?key = "\<lambda>(co, c, s). sem_start_date s"
  let ?L = "order_by_desc ?key ?J"
  have res: "get_teacher_offerings_with_status d t_id = map (teacher_select d) ?L"
    by (simp add: get_teacher_offerings_with_status_def)
  have ids: "map to_offering_id (map (teacher_select d) ?L) = map (co_offering_id \<circ> fst) ?L"
    by (simp add: teacher_select_def comp_def split_def)
  have setL: "set ?L = set ?J" by (rule set_order_by_desc)
  have sub: "set (map (co_offering_id \<circ> fst) ?L)
               \<subseteq> {co_offering_id co | co. co \<in> set (course_offerings d) \<and> co_teacher_id co = t_id
                                     \<and> co_semester_id co \<noteq> None}"
  proof
    fix x assume "x \<in> set (map (co_offering_id \<circ> fst) ?L)"
    then obtain j where j: "j \<in> set ?J" and x: "x = co_offering_id (fst j)"
      unfolding set_map setL by auto
    obtain co c s where jv: "j = (co, c, s)" by (cases j) auto
    have "co \<in> set (course_offerings d) \<and> co_teacher_id co = t_id \<and> co_semester_id co \<noteq> None
            \<and> x = co_offering_id co"
      using j x jv by (simp add: in_teacher_from)
    then show "x \<in> {co_offering_id co | co. co \<in> set (course_offerings d) \<and> co_teacher_id co = t_id
                                     \<and> co_semester_id co \<noteq> None}"
      by blast
  qed
  have sup: "{co_offering_id co | co. co \<in> set (course_offerings d) \<and> co_teacher_id co = t_id
                                     \<and> co_semester_id co \<noteq> None}
               \<subseteq> set (map (co_offering_id \<circ> fst) ?L)"
  proof
    fix x assume "x \<in> {co_offering_id co | co. co \<in> set (course_offerings d)
                          \<and> co_teacher_id co = t_id \<and> co_semester_id co \<noteq> None}"
    then obtain co m where co: "co \<in> set (course_offerings d)" and t: "co_teacher_id co = t_id"
      and sm: "co_semester_id co = Some m" and x: "x = co_offering_id co"
      by auto
    from fkc co obtain c where c: "c \<in> set (courses d)" and cc: "co_course_id co = c_course_id c"
      by (auto simp: fk_offerings_course_def)
    from fks co sm obtain s where s: "s \<in> set (semesters d)" and ss: "m = sem_semester_id s"
      by (auto simp: fk_offerings_semester_def)
    have "(co, c, s) \<in> set ?L"
      unfolding setL using co c cc s ss sm t by (simp add: in_teacher_from)
    then have "(co_offering_id \<circ> fst) (co, c, s) \<in> set (map (co_offering_id \<circ> fst) ?L)"
      unfolding set_map by (rule imageI)
    then show "x \<in> set (map (co_offering_id \<circ> fst) ?L)"
      using x by simp
  qed
  have seteq: "set (map to_offering_id (get_teacher_offerings_with_status d t_id))
           = {co_offering_id co | co. co \<in> set (course_offerings d) \<and> co_teacher_id co = t_id
                                     \<and> co_semester_id co \<noteq> None}"
    unfolding res ids using sub sup by (rule subset_antisym)
  have "mset (map (co_offering_id \<circ> fst) ?L) = mset (map (co_offering_id \<circ> fst) ?J)"
    by (simp add: mset_order_by_desc)
  then have "distinct (map (co_offering_id \<circ> fst) ?L) = distinct (map (co_offering_id \<circ> fst) ?J)"
    by (rule mset_eq_imp_distinct_iff)
  then have dist: "distinct (map to_offering_id (get_teacher_offerings_with_status d t_id))"
    unfolding res ids using teacher_from_ids_distinct[OF pkc pks pko] by simp
  have rows: "\<forall>r \<in> set (get_teacher_offerings_with_status d t_id).
             to_teacher_id r = t_id
             \<and> (to_is_completed r \<longleftrightarrow>
                  (\<exists>e \<in> set (enrollments d).
                     e_offering_id e = to_offering_id r \<and> e_status e = Completed))"
  proof
    fix r assume "r \<in> set (get_teacher_offerings_with_status d t_id)"
    then obtain j where j: "j \<in> set ?J" and r: "r = teacher_select d j"
      unfolding res set_map setL by auto
    obtain co c s where jv: "j = (co, c, s)" by (cases j) auto
    have "co_teacher_id co = t_id" using j jv by (simp add: in_teacher_from)
    then show "to_teacher_id r = t_id
             \<and> (to_is_completed r \<longleftrightarrow>
                  (\<exists>e \<in> set (enrollments d).
                     e_offering_id e = to_offering_id r \<and> e_status e = Completed))"
      by (simp add: r jv teacher_select_def)
  qed
  have "sorted_wrt (\<lambda>a b. date_desc (?key a) (?key b)) ?L"
    by (rule sorted_order_by_desc)
  then have "sorted_wrt (\<lambda>a b. date_desc (spec_start_date d (teacher_select d a))
                                    (spec_start_date d (teacher_select d b))) ?L"
  proof (rule sorted_wrt_mono_rel[rotated])
    fix a b assume a: "a \<in> set ?L" and b: "b \<in> set ?L" and ab: "date_desc (?key a) (?key b)"
    obtain co c s where av: "a = (co, c, s)" by (cases a) auto
    obtain co' c' s' where bv: "b = (co', c', s')" by (cases b) auto
    have "spec_start_date d (teacher_select d a) = ?key a"
      using a spec_start_date_select[OF pks, of co c s t_id] unfolding setL av by simp
    moreover have "spec_start_date d (teacher_select d b) = ?key b"
      using b spec_start_date_select[OF pks, of co' c' s' t_id] unfolding setL bv by simp
    ultimately show "date_desc (spec_start_date d (teacher_select d a))
                               (spec_start_date d (teacher_select d b))"
      using ab by simp
  qed
  then have sorted: "sorted_wrt (\<lambda>a b. date_desc (spec_start_date d a) (spec_start_date d b))
            (get_teacher_offerings_with_status d t_id)"
    unfolding res by (simp add: sorted_wrt_map)
  show ?thesis
    by (intro conjI seteq dist rows sorted)
qed

theorem teacher_offerings_with_status_amended_witness:
  "pk_courses teacher_example \<and> pk_semesters teacher_example \<and> pk_course_offerings teacher_example
   \<and> fk_offerings_course teacher_example \<and> fk_offerings_semester teacher_example
   \<and> map to_offering_id (get_teacher_offerings_with_status teacher_example 5) = [4, 2, 1]
   \<and> {co_offering_id co | co. co \<in> set (course_offerings teacher_example) \<and> co_teacher_id co = 5
                              \<and> co_semester_id co \<noteq> None} = {4, 2, 1}"
proof -
  have h: "pk_courses teacher_example" "pk_semesters teacher_example"
    "pk_course_offerings teacher_example" "fk_offerings_course teacher_example"
    "fk_offerings_semester teacher_example"
    using teacher_example_schema by simp_all
  have ids: "map to_offering_id (get_teacher_offerings_with_status teacher_example 5) = [4, 2, 1]"
    by (rule teacher_example_rows)
  have "set (map to_offering_id (get_teacher_offerings_with_status teacher_example 5))
           = {co_offering_id co | co. co \<in> set (course_offerings teacher_example) \<and> co_teacher_id co = 5
                                     \<and> co_semester_id co \<noteq> None}"
    using teacher_offerings_with_status_amended[OF h, of 5] by (rule conjunct1)
  then have "{co_offering_id co | co. co \<in> set (course_offerings teacher_example) \<and> co_teacher_id co = 5
                              \<and> co_semester_id co \<noteq> None} = {4, 2, 1}"
    unfolding ids by simp
  with h ids show ?thesis by simp
qed

text \<open>
  C8 as stated fails: offering 3 of the example is taught by teacher 5 and is not among
  the rows returned for teacher 5, because it has no semester.
\<close>

theorem teacher_offerings_all_counterexample:
  "course_offerings teacher_example ! 2 \<in> set (course_offerings teacher_example)
   \<and> co_teacher_id (course_offerings teacher_example ! 2) = 5
   \<and> co_offering_id (course_offerings teacher_example ! 2) = 3
   \<and> 3 \<notin> set (map to_offering_id (get_teacher_offerings_with_status teacher_example 5))"
proof -
  have "map to_offering_id (get_teacher_offerings_with_status teacher_example 5) = [4, 2, 1]"
    by (rule teacher_example_rows)
  then show ?thesis by (simp add: teacher_example_def)
qed

end
